theory Spec2Isabelle
  imports Complex_Main
begin

section \<open>JavaScript numbers, remainders and array reads\<close>

text \<open>
  The engine of \<^verbatim>\<open>src/app/Jathakam/page.tsx\<close> classifies angles held in JavaScript
  numbers. A number that passed \<^verbatim>\<open>Number.isFinite\<close> is modelled by the real it denotes;
  the three non-finite numbers are constructors of their own, and a missing object property
  (\<^verbatim>\<open>undefined\<close>) is \<open>None\<close>. Arithmetic is exact real arithmetic, except in the
  nakshatra resolver, where IEEE rounding decides the result and is modelled.
\<close>

datatype number = Fin real | NaN | PosInf | NegInf

fun isFinite :: "number option \<Rightarrow> bool" where
  "isFinite (Some (Fin x)) = True"
| "isFinite _ = False"

text \<open>
  \<^verbatim>\<open>x % y\<close> on numbers keeps the sign of the dividend: the quotient is truncated towards
  zero. The engine only divides by the non-zero constants 360, 30, 12, 15, 9, 7 and 2.
\<close>

definition js_rem :: "real \<Rightarrow> real \<Rightarrow> real" where
  "js_rem x y = x - y * of_int (if 0 \<le> x / y then \<lfloor>x / y\<rfloor> else \<lceil>x / y\<rceil>)"

definition js_irem :: "int \<Rightarrow> int \<Rightarrow> int" where
  "js_irem a b = sgn a * (\<bar>a\<bar> mod \<bar>b\<bar>)"

text \<open>An array read \<^verbatim>\<open>xs[i]\<close>: \<^verbatim>\<open>undefined\<close> (here \<open>None\<close>) outside the array.\<close>

definition js_nth :: "'a list \<Rightarrow> int \<Rightarrow> 'a option" where
  "js_nth xs i = (if 0 \<le> i \<and> i < int (length xs) then Some (xs ! nat i) else None)"

definition SIGNS :: "string list" where
  "SIGNS = [''Aries'', ''Taurus'', ''Gemini'', ''Cancer'', ''Leo'', ''Virgo'', ''Libra'',
            ''Scorpio'', ''Sagittarius'', ''Capricorn'', ''Aquarius'', ''Pisces'']"

definition norm360 :: "real \<Rightarrow> real" where
  "norm360 x = js_rem (js_rem x 360 + 360) 360"

section \<open>Varga helpers (D1, D2, D3, D7, D9, D10, D12, D30)\<close>

text \<open>
  The sign index is an integer (\<^verbatim>\<open>Math.floor\<close> of a number); the degree inside the sign is
  a finite number.
\<close>

definition signIndex :: "real \<Rightarrow> int" where
  "signIndex deg = \<lfloor>norm360 deg / 30\<rfloor>"

definition ODD :: "int \<Rightarrow> bool" where
  "ODD s = (js_irem s 2 = 0)"

datatype quality = movable | fixed | dual

definition QUALITY :: "quality list" where
  "QUALITY = [movable, fixed, dual, movable, fixed, dual,
              movable, fixed, dual, movable, fixed, dual]"

definition horaSign :: "int \<Rightarrow> real \<Rightarrow> int" where
  "horaSign s within' =
     (let first = (within' < 15); odd' = ODD s
      in if odd' then (if first then 4 else 3) else (if first then 3 else 4))"

text \<open>
  In \<^verbatim>\<open>drekkanaSign\<close> the offset \<^verbatim>\<open>[0, 4, 8][p]\<close> is \<^verbatim>\<open>undefined\<close> for a part outside
  0..2, and the sum is then \<^verbatim>\<open>NaN\<close>: that result is \<open>None\<close>.
\<close>

definition drekkanaSign :: "int \<Rightarrow> real \<Rightarrow> int option" where
  "drekkanaSign s within' =
     (let p = \<lfloor>within' / 10\<rfloor>
      in case js_nth [0, 4, 8] p of
           None \<Rightarrow> None
         | Some add \<Rightarrow> Some (js_irem (s + add) 12))"

definition saptamsaSign :: "int \<Rightarrow> real \<Rightarrow> int" where
  "saptamsaSign s within' =
     (let p = \<lfloor>within' / (30 / 7)\<rfloor>;
          base = (if ODD s then s else js_irem (s + 6) 12)
      in js_irem (base + p) 12)"

text \<open>
  \<^verbatim>\<open>QUALITY[s]\<close> outside the table is \<^verbatim>\<open>undefined\<close>, which is neither
  \<^verbatim>\<open>'movable'\<close> nor \<^verbatim>\<open>'fixed'\<close>: the last branch is taken.
\<close>

definition navamsaSign :: "int \<Rightarrow> real \<Rightarrow> int" where
  "navamsaSign s within' =
     (let p = \<lfloor>within' / (30 / 9)\<rfloor>;
          q = js_nth QUALITY s;
          base = (if q = Some movable then s
                  else if q = Some fixed then js_irem (s + 8) 12
                  else js_irem (s + 4) 12)
      in js_irem (base + p) 12)"

definition dasamsaSign :: "int \<Rightarrow> real \<Rightarrow> int" where
  "dasamsaSign s within' =
     (let p = \<lfloor>within' / 3\<rfloor>;
          base = (if ODD s then s else js_irem (s + 8) 12)
      in js_irem (base + p) 12)"

definition dwadasamsaSign :: "int \<Rightarrow> real \<Rightarrow> int" where
  "dwadasamsaSign s within' =
     (let p = \<lfloor>within' / (5 / 2)\<rfloor>
      in js_irem (s + p) 12)"

definition trimshamsaSign :: "int \<Rightarrow> real \<Rightarrow> int" where
  "trimshamsaSign s within' =
     (let odd' = ODD s
      in if odd' then
           (if within' < 5 then 0
            else if within' < 10 then 10
            else if within' < 18 then 8
            else if within' < 25 then 2
            else 6)
         else
           (if within' < 5 then 7
            else if within' < 10 then 9
            else if within' < 18 then 11
            else if within' < 25 then 5
            else 1))"

text \<open>
  \<^verbatim>\<open>vargaPlacements\<close>: one row per body of the fixed list, built by \<^verbatim>\<open>map\<close> and
  \<^verbatim>\<open>filter(Boolean)\<close>. The positions object is an association list (its key order is
  the order of \<^verbatim>\<open>Object.keys\<close>); \<^verbatim>\<open>positions[name]\<close> is \<open>map_of\<close>. A cell
  \<^verbatim>\<open>SIGNS[i]\<close> is \<open>None\<close> where the read is \<^verbatim>\<open>undefined\<close>.
\<close>

record VargaRow =
  body :: string
  D1 :: "string option"
  D2 :: "string option"
  D3 :: "string option"
  D7 :: "string option"
  D9 :: "string option"
  D10 :: "string option"
  D12 :: "string option"
  D30 :: "string option"

definition bodies :: "string list" where
  "bodies = [''Ascendant'', ''Sun'', ''Moon'', ''Mercury'', ''Venus'', ''Mars'', ''Jupiter'',
             ''Saturn'', ''Rahu'', ''Ketu'', ''Uranus'', ''Neptune'', ''Pluto'']"

definition getDeg :: "(string \<times> number) list \<Rightarrow> number \<Rightarrow> string \<Rightarrow> number option" where
  "getDeg positions' asc nm = (if nm = ''Ascendant'' then Some asc else map_of positions' nm)"

text \<open>The callback of \<^verbatim>\<open>bodies.map\<close>: \<open>None\<close> is the \<^verbatim>\<open>null\<close> of a skipped body.\<close>

definition vargaRow :: "string \<Rightarrow> number option \<Rightarrow> VargaRow option" where
  "vargaRow b deg =
     (if \<not> isFinite deg then None
      else case deg of
        Some (Fin x) \<Rightarrow>
          (let s = signIndex x; within' = js_rem (norm360 x) 30
           in Some \<lparr> body = b,
                     D1 = js_nth SIGNS s,
                     D2 = js_nth SIGNS (horaSign s within'),
                     D3 = Option.bind (drekkanaSign s within') (js_nth SIGNS),
                     D7 = js_nth SIGNS (saptamsaSign s within'),
                     D9 = js_nth SIGNS (navamsaSign s within'),
                     D10 = js_nth SIGNS (dasamsaSign s within'),
                     D12 = js_nth SIGNS (dwadasamsaSign s within'),
                     D30 = js_nth SIGNS (trimshamsaSign s within') \<rparr>)
      | _ \<Rightarrow> None)"

definition vargaPlacements :: "(string \<times> number) list \<Rightarrow> number \<Rightarrow> VargaRow list" where
  "vargaPlacements positions' asc =
     List.map_filter (\<lambda>b. vargaRow b (getDeg positions' asc b)) bodies"

section \<open>Panchanga helpers\<close>

definition NAK_NAMES :: "string list" where
  "NAK_NAMES = [''Ashwini'', ''Bharani'', ''Krittika'', ''Rohini'', ''Mrigashira'', ''Ardra'',
     ''Punarvasu'', ''Pushya'', ''Ashlesha'', ''Magha'', ''Purva Phalguni'', ''Uttara Phalguni'',
     ''Hasta'', ''Chitra'', ''Swati'', ''Vishakha'', ''Anuradha'', ''Jyeshtha'', ''Mula'',
     ''Purva Ashadha'', ''Uttara Ashadha'', ''Shravana'', ''Dhanishta'', ''Shatabhisha'',
     ''Purva Bhadrapada'', ''Uttara Bhadrapada'', ''Revati'']"

definition LORD_SEQ :: "string list" where
  "LORD_SEQ = [''Ketu'', ''Venus'', ''Sun'', ''Moon'', ''Mars'', ''Rahu'', ''Jupiter'',
               ''Saturn'', ''Mercury'']"

definition DEG_PER_NAK :: real where
  "DEG_PER_NAK = 360 / 27"

definition DEG_PER_PADA :: real where
  "DEG_PER_PADA = DEG_PER_NAK / 4"

definition TITHI_15 :: "string list" where
  "TITHI_15 = [''Pratipada'', ''Dvitiya'', ''Tritiya'', ''Chaturthi'', ''Panchami'',
     ''Shashthi'', ''Saptami'', ''Ashtami'', ''Navami'', ''Dashami'', ''Ekadashi'',
     ''Dwadashi'', ''Trayodashi'', ''Chaturdashi'', ''Purnima'']"

definition TITHI_15_KRISHNA_LAST :: string where
  "TITHI_15_KRISHNA_LAST = ''Amavasya''"

definition YOGAS_27 :: "string list" where
  "YOGAS_27 = [''Vishkumbha'', ''Preeti'', ''Ayushman'', ''Saubhagya'', ''Shobhana'',
     ''Atiganda'', ''Sukarma'', ''Dhriti'', ''Shoola'', ''Ganda'', ''Vriddhi'', ''Dhruva'',
     ''Vyaghata'', ''Harshana'', ''Vajra'', ''Siddhi'', ''Vyatipata'', ''Variyan'', ''Parigha'',
     ''Shiva'', ''Siddha'', ''Sadhya'', ''Shubha'', ''Shukla'', ''Brahma'', ''Indra'',
     ''Vaidhriti'']"

definition KARANA_ROT :: "string list" where
  "KARANA_ROT = [''Bava'', ''Balava'', ''Kaulava'', ''Taitila'', ''Garaja'', ''Vanija'',
                 ''Vishti'']"

definition KARANA_END :: "string list" where
  "KARANA_END = [''Shakuni'', ''Chatushpada'', ''Naga'']"

text \<open>
  The nakshatra resolver compares a longitude with multiples of a span that is not a
  double, and its results at and near a span boundary depend on the rounding of each
  operation. It is therefore modelled in IEEE double arithmetic: \<open>fl\<close> rounds a real to the
  nearest number with a 53-bit significand, a tie going to the even significand, and every
  constant and every result of \<^verbatim>\<open>+\<close>, \<^verbatim>\<open>-\<close>, \<^verbatim>\<open>*\<close>, \<^verbatim>\<open>/\<close> is rounded by it. The remainder
  \<^verbatim>\<open>%\<close> and \<^verbatim>\<open>Math.floor\<close> are exact on doubles. Overflow and subnormal numbers are not
  modelled (no longitude of a chart comes near them). The argument of \<open>norm360_ieee\<close> and of
  \<open>nakForDeg\<close> is a double.
\<close>

definition round_even :: "real \<Rightarrow> int" where
  "round_even y =
     (let f = \<lfloor>y\<rfloor>; r = y - of_int f
      in if r < 1 / 2 then f
         else if 1 / 2 < r then f + 1
         else if even f then f else f + 1)"

definition fl :: "real \<Rightarrow> real" where
  "fl x =
     (if x = 0 then 0
      else let u = 2 powr of_int (\<lfloor>log 2 \<bar>x\<bar>\<rfloor> - 52)
           in of_int (round_even (x / u)) * u)"

text \<open>\<^verbatim>\<open>norm360\<close> on doubles: only the addition rounds.\<close>

definition norm360_ieee :: "real \<Rightarrow> real" where
  "norm360_ieee x = js_rem (fl (js_rem x 360 + 360)) 360"

record NakInfo =
  nk_index :: int
  nk_name :: "string option"
  nk_pada :: int
  nk_lord :: "string option"

text \<open>
  \<^verbatim>\<open>nakForDeg\<close>, with the constants \<^verbatim>\<open>DEG_PER_NAK\<close> and \<^verbatim>\<open>DEG_PER_PADA\<close> as the doubles
  they are in the program.
\<close>

definition nakForDeg :: "real \<Rightarrow> NakInfo" where
  "nakForDeg deg =
     (let L = norm360_ieee deg;
          idx = \<lfloor>fl (L / fl DEG_PER_NAK)\<rfloor>;
          within' = fl (L - fl (of_int idx * fl DEG_PER_NAK));
          pada' = \<lfloor>fl (within' / fl DEG_PER_PADA)\<rfloor> + 1;
          lord' = js_nth LORD_SEQ (js_irem idx 9)
      in \<lparr> nk_index = idx, nk_name = js_nth NAK_NAMES idx, nk_pada = pada', nk_lord = lord' \<rparr>)"

text \<open>
  Of \<^verbatim>\<open>ChartOut\<close> the fields the engine reads. \<^verbatim>\<open>jd_ut\<close> and \<^verbatim>\<open>timezone\<close> only feed
  the weekday formatter.
\<close>

record AspectPair =
  ap_a :: string
  ap_b :: string
  ap_type :: string
  ap_delta :: real

record ChartOut =
  jd_ut :: number
  timezone :: string
  ascendant :: number
  positions :: "(string \<times> number) list"
  aspects :: "AspectPair list"

record Panchanga =
  vara :: string
  tithiNum :: int
  tithiName :: "string option"
  paksha :: string
  nakshatra :: "string option"
  pada :: int
  yoga :: "string option"
  karana :: "string option"

datatype error = RangeError

text \<open>
  \<^verbatim>\<open>panchangaFrom\<close>. The weekday comes from the platform's \<^verbatim>\<open>Intl.DateTimeFormat\<close>, which
  is not part of the repository: it is the parameter \<open>weekdayLong\<close>, given the Julian day
  and the time zone, and it may throw (\<open>Inl\<close>). \<open>Inr None\<close> is the returned \<^verbatim>\<open>null\<close>.
\<close>

definition panchangaFrom ::
  "(number \<Rightarrow> string \<Rightarrow> error + string) \<Rightarrow> ChartOut option \<Rightarrow> error + Panchanga option" where
  "panchangaFrom weekdayLong out =
     (case out of
        None \<Rightarrow> Inr None
      | Some ch \<Rightarrow>
         (let sun' = map_of (positions ch) ''Sun'';
              moon' = map_of (positions ch) ''Moon''
          in if \<not> isFinite sun' \<or> \<not> isFinite moon' then Inr None
             else case (sun', moon') of
               (Some (Fin sun), Some (Fin moon)) \<Rightarrow>
                 (case weekdayLong (jd_ut ch) (timezone ch) of
                    Inl e \<Rightarrow> Inl e
                  | Inr vara' \<Rightarrow>
                     (let diff = norm360 (moon - sun);
                          tithiNum' = \<lfloor>diff / 12\<rfloor> + 1;
                          paksha' = (if tithiNum' \<le> 15 then ''Shukla'' else ''Krishna'');
                          idx15 = js_irem (tithiNum' - 1) 15;
                          tithiName' =
                            (if paksha' = ''Shukla'' then js_nth TITHI_15 idx15
                             else if idx15 = 14 then Some TITHI_15_KRISHNA_LAST
                             else js_nth TITHI_15 idx15);
                          nk = nakForDeg moon;
                          yogaAngle = norm360 (moon + sun);
                          yogaIdx = \<lfloor>yogaAngle / DEG_PER_NAK\<rfloor>;
                          yogaName = js_nth YOGAS_27 yogaIdx;
                          karIdx = \<lfloor>diff / 6\<rfloor>;
                          karanaName =
                            (if karIdx = 0 then Some ''Kimstughna''
                             else if karIdx \<ge> 57 then js_nth KARANA_END (karIdx - 57)
                             else js_nth KARANA_ROT (js_irem (karIdx - 1) 7))
                      in Inr (Some \<lparr> vara = vara',
                                      tithiNum = tithiNum',
                                      tithiName = tithiName',
                                      paksha = paksha',
                                      nakshatra = nk_name nk,
                                      pada = nk_pada nk,
                                      yoga = yogaName,
                                      karana = karanaName \<rparr>)))
             | _ \<Rightarrow> Inr None))"

section \<open>Aspects, including the Ascendant\<close>

record AspectDef =
  ad_name :: string
  ad_angle :: real
  ad_orb :: real

definition ASPECTS_DEF :: "AspectDef list" where
  "ASPECTS_DEF =
     [\<lparr> ad_name = ''Conjunction'', ad_angle = 0, ad_orb = 6 \<rparr>,
      \<lparr> ad_name = ''Opposition'', ad_angle = 180, ad_orb = 6 \<rparr>,
      \<lparr> ad_name = ''Trine'', ad_angle = 120, ad_orb = 5 \<rparr>,
      \<lparr> ad_name = ''Square'', ad_angle = 90, ad_orb = 5 \<rparr>,
      \<lparr> ad_name = ''Sextile'', ad_angle = 60, ad_orb = 4 \<rparr>]"

definition angDiff :: "real \<Rightarrow> real \<Rightarrow> real" where
  "angDiff x y = (let d = \<bar>norm360 x - norm360 y\<bar> in min d (360 - d))"

text \<open>
  \<^verbatim>\<open>+x.toFixed(2)\<close>: the nearest multiple of 1/100, a tie going away from zero.
\<close>

definition toFixed2 :: "real \<Rightarrow> real" where
  "toFixed2 x = sgn x * of_int \<lfloor>\<bar>x\<bar> * 100 + 1 / 2\<rfloor> / 100"

text \<open>The test of the inner loop: \<^verbatim>\<open>Math.abs(d - A.angle) <= A.orb\<close>.\<close>

definition inOrb :: "real \<Rightarrow> AspectDef \<Rightarrow> bool" where
  "inOrb d A = (\<bar>d - ad_angle A\<bar> \<le> ad_orb A)"

text \<open>
  One round of the outer loop of \<^verbatim>\<open>deriveAscAspects\<close>, for the key \<open>n\<close> with value
  \<open>deg\<close>: the inner loop stops at the first definition whose orb holds the distance
  (\<open>find\<close>). The table of definitions is a parameter, so that the order of the table can
  be varied; the source runs it on \<open>ASPECTS_DEF\<close>. With an ascendant that is not finite
  the distance is \<^verbatim>\<open>NaN\<close>, every comparison is false and nothing is pushed.
\<close>

definition ascAspect :: "AspectDef list \<Rightarrow> number \<Rightarrow> string \<Rightarrow> number option \<Rightarrow> AspectPair list" where
  "ascAspect defs asc n deg =
     (if \<not> isFinite deg then []
      else case (asc, deg) of
        (Fin a, Some (Fin x)) \<Rightarrow>
          (let d = angDiff a x
           in case find (inOrb d) defs of
                None \<Rightarrow> []
              | Some A \<Rightarrow> [\<lparr> ap_a = ''Ascendant'', ap_b = n, ap_type = ad_name A,
                               ap_delta = toFixed2 (d - ad_angle A) \<rparr>])
      | _ \<Rightarrow> [])"

definition deriveAscAspectsWith :: "AspectDef list \<Rightarrow> ChartOut \<Rightarrow> AspectPair list" where
  "deriveAscAspectsWith defs ch =
     (let asc = ascendant ch;
          names = map fst (positions ch)
      in concat (map (\<lambda>n. ascAspect defs asc n (map_of (positions ch) n)) names))"

definition deriveAscAspects :: "ChartOut \<Rightarrow> AspectPair list" where
  "deriveAscAspects ch = deriveAscAspectsWith ASPECTS_DEF ch"

text \<open>
  \<^verbatim>\<open>mergeAspects\<close>. A \<^verbatim>\<open>Map\<close> keeps its keys in the order of their first insertion;
  \<^verbatim>\<open>set\<close> on a key already present replaces the value where it stands.
\<close>

fun join :: "string \<Rightarrow> string list \<Rightarrow> string" where
  "join sep [] = []"
| "join sep [x] = x"
| "join sep (x # y # ys) = x @ sep @ join sep (y # ys)"

definition key :: "AspectPair \<Rightarrow> string" where
  "key p = join ''|'' [ap_a p, ap_type p, ap_b p]"

fun Map_set :: "('k \<times> 'v) list \<Rightarrow> 'k \<Rightarrow> 'v \<Rightarrow> ('k \<times> 'v) list" where
  "Map_set [] k v = [(k, v)]"
| "Map_set ((k', v') # m) k v = (if k' = k then (k, v) # m else (k', v') # Map_set m k v)"

definition mergeAspects :: "AspectPair list \<Rightarrow> AspectPair list \<Rightarrow> AspectPair list" where
  "mergeAspects existing ascOnes =
     (let m0 = [];
          m1 = fold (\<lambda>p m. Map_set m (key p) p) existing m0;
          m2 = fold (\<lambda>p m. Map_set m (key p) p) ascOnes m1
      in map snd m2)"

section \<open>Properties of a partition edge\<close>

text \<open>
  For an edge \<open>e\<close> between the bands \<open>[lo, e)\<close> and \<open>[e, hi)\<close> of a mapping \<open>f\<close>:
  every degree of the upper band maps as the edge does, and every degree of the lower band
  maps differently.
\<close>

abbreviation (input) edge_upper :: "(real \<Rightarrow> 'a) \<Rightarrow> real \<Rightarrow> real \<Rightarrow> real \<Rightarrow> real \<Rightarrow> bool" where
  "edge_upper f lo e hi w \<equiv> (e \<le> w \<and> w < hi \<longrightarrow> f w = f e) \<and> (lo \<le> w \<and> w < e \<longrightarrow> f w \<noteq> f e)"

section \<open>Arithmetic of the helpers\<close>

lemma js_irem_nonneg: "0 \<le> a \<Longrightarrow> 0 < b \<Longrightarrow> js_irem a b = a mod b"
  by (cases "a = 0") (simp_all add: js_irem_def)

lemma ODD_iff_even: "ODD s \<longleftrightarrow> even s"
  by (auto simp: ODD_def js_irem_def sgn_if even_iff_mod_2_eq_zero)

lemma js_rem_trunc_bounds:
  fixes x y :: real
  assumes "0 < y"
  shows "- y < js_rem x y" and "js_rem x y < y"
proof -
  have fl: "of_int \<lfloor>x / y\<rfloor> * y \<le> x" "x < (of_int \<lfloor>x / y\<rfloor> + 1) * y"
    using assms by (rule floor_divide_lower, rule floor_divide_upper)
  have ce: "x \<le> of_int \<lceil>x / y\<rceil> * y" "(of_int \<lceil>x / y\<rceil> - 1) * y < x"
    using assms by (rule ceiling_divide_upper, rule ceiling_divide_lower)
  show "- y < js_rem x y"
  proof (cases "0 \<le> x / y")
    case True
    then show ?thesis using fl assms by (simp add: js_rem_def algebra_simps)
  next
    case False
    then show ?thesis using ce assms by (simp add: js_rem_def algebra_simps)
  qed
  show "js_rem x y < y"
  proof (cases "0 \<le> x / y")
    case True
    then show ?thesis using fl assms by (simp add: js_rem_def algebra_simps)
  next
    case False
    then have "x < 0" using assms by (simp add: zero_le_divide_iff not_le) 
    then show ?thesis using False ce assms by (simp add: js_rem_def algebra_simps)
  qed
qed

lemma norm360_floor: "norm360 x = x - 360 * of_int \<lfloor>x / 360\<rfloor>"
proof -
  define t :: int where "t = (if 0 \<le> x / 360 then \<lfloor>x / 360\<rfloor> else \<lceil>x / 360\<rceil>)"
  have r: "js_rem x 360 = x - 360 * of_int t"
    by (simp add: js_rem_def t_def)
  have "- 360 < js_rem x 360"
    using js_rem_trunc_bounds(1) [of 360 x] by simp
  then have nn: "0 \<le> (js_rem x 360 + 360) / 360" by simp
  have "(js_rem x 360 + 360) / 360 = x / 360 - of_int (t - 1)"
    by (simp add: r field_simps)
  then have "\<lfloor>(js_rem x 360 + 360) / 360\<rfloor> = \<lfloor>x / 360\<rfloor> - (t - 1)"
    by (simp only: floor_diff_of_int)
  then have fl: "real_of_int \<lfloor>(js_rem x 360 + 360) / 360\<rfloor> = of_int \<lfloor>x / 360\<rfloor> - of_int t + 1"
    by simp
  have "norm360 x = (js_rem x 360 + 360) - 360 * of_int \<lfloor>(js_rem x 360 + 360) / 360\<rfloor>"
    unfolding norm360_def js_rem_def [of "js_rem x 360 + 360"] using nn by simp
  also have "\<dots> = x - 360 * of_int \<lfloor>x / 360\<rfloor>"
    unfolding fl by (simp add: r algebra_simps)
  finally show ?thesis .
qed

lemma norm360_range: "0 \<le> norm360 x" "norm360 x < 360"
proof -
  have "of_int \<lfloor>x / 360\<rfloor> * 360 \<le> x" "x < (of_int \<lfloor>x / 360\<rfloor> + 1) * 360"
    by (rule floor_divide_lower, simp, rule floor_divide_upper, simp)
  then show "0 \<le> norm360 x" "norm360 x < 360"
    by (simp_all add: norm360_floor algebra_simps)
qed

lemma norm360_id: "0 \<le> x \<Longrightarrow> x < 360 \<Longrightarrow> norm360 x = x"
proof -
  assume "0 \<le> x" "x < 360"
  then have "\<lfloor>x / 360\<rfloor> = 0" by (simp add: floor_eq_iff)
  then show ?thesis by (simp add: norm360_floor)
qed

lemma floor_part:
  fixes w c :: real
  assumes "0 < c" "of_int k * c \<le> w" "w < (of_int k + 1) * c"
  shows "\<lfloor>w / c\<rfloor> = k"
proof (rule floor_unique)
  show "of_int k \<le> w / c" using assms by (simp add: le_divide_eq)
  show "w / c < of_int k + 1" using assms by (simp add: divide_less_eq)
qed

lemma sign_cases:
  fixes s :: int
  assumes "0 \<le> s" "s < 12"
  shows "s = 0 \<or> s = 1 \<or> s = 2 \<or> s = 3 \<or> s = 4 \<or> s = 5 \<or> s = 6 \<or> s = 7 \<or> s = 8
         \<or> s = 9 \<or> s = 10 \<or> s = 11"
  using assms by arith

lemma js_nth_QUALITY:
  assumes "0 \<le> s" "s < 12"
  shows "js_nth QUALITY s =
           Some (if s mod 3 = 0 then movable else if s mod 3 = 1 then fixed else dual)"
  using sign_cases [OF assms] by (auto simp: js_nth_def QUALITY_def)

section \<open>D2 (hora): parity convention and halves\<close>

text \<open>
  Claim C7. A sign counts as odd exactly when its zero-based index is even (Aries, index 0,
  is odd). For an odd sign the hora mapping sends degrees in [0,15) to Leo (index 4) and
  degrees in [15,30) to Cancer (index 3); for an even sign the halves are swapped. The
  result is one of the two fixed signs, whatever the sign index beyond its parity.
\<close>

theorem hora_parity_halves:
  "ODD 0 \<and> (ODD s \<longleftrightarrow> s mod 2 = 0) \<and>
   (ODD s \<and> 0 \<le> w \<and> w < 15 \<longrightarrow> horaSign s w = 4) \<and>
   (ODD s \<and> 15 \<le> w \<and> w < 30 \<longrightarrow> horaSign s w = 3) \<and>
   (\<not> ODD s \<and> 0 \<le> w \<and> w < 15 \<longrightarrow> horaSign s w = 3) \<and>
   (\<not> ODD s \<and> 15 \<le> w \<and> w < 30 \<longrightarrow> horaSign s w = 4) \<and>
   js_nth SIGNS 4 = Some ''Leo'' \<and> js_nth SIGNS 3 = Some ''Cancer''"
  by (simp add: horaSign_def ODD_iff_even even_iff_mod_2_eq_zero js_nth_def SIGNS_def)

theorem hora_parity_halves_witness:
  "horaSign 0 10 = 4 \<and> horaSign 0 20 = 3 \<and> horaSign 1 10 = 3 \<and> horaSign 1 20 = 4"
  using hora_parity_halves [of 0 10] hora_parity_halves [of 0 20]
    hora_parity_halves [of 1 10] hora_parity_halves [of 1 20]
  by simp

section \<open>D9 (navamsa)\<close>

text \<open>
  Claim C6. For a sign index \<open>s\<close> in 0..11 and a degree \<open>w\<close> in [0,30) the navamsa
  mapping returns \<open>(base + \<lfloor>w / (30/9)\<rfloor>) mod 12\<close>, where the base is \<open>s\<close> for a movable
  sign (\<open>s mod 3 = 0\<close>), \<open>(s + 8) mod 12\<close> for a fixed sign and \<open>(s + 4) mod 12\<close> for a dual
  sign, as the quality table has it; the part number lies in 0..8 and every degree of part \<open>k\<close> maps to the same sign
  \<open>(base + k) mod 12\<close>; for Aries part 0 maps to Aries and part 8 to Sagittarius.
\<close>

theorem navamsa_formula:
  assumes "0 \<le> s" "s < 12" "0 \<le> w" "w < 30"
  shows "navamsaSign s w =
           ((if s mod 3 = 0 then s else if s mod 3 = 1 then (s + 8) mod 12 else (s + 4) mod 12)
             + \<lfloor>w / (30 / 9)\<rfloor>) mod 12
         \<and> js_nth QUALITY s =
             Some (if s mod 3 = 0 then movable else if s mod 3 = 1 then fixed else dual)
         \<and> 0 \<le> \<lfloor>w / (30 / 9)\<rfloor> \<and> \<lfloor>w / (30 / 9)\<rfloor> \<le> 8
         \<and> (\<forall>k. of_int k * (30 / 9) \<le> w \<and> w < (of_int k + 1) * (30 / 9) \<longrightarrow>
               navamsaSign s w =
                 ((if s mod 3 = 0 then s else if s mod 3 = 1 then (s + 8) mod 12
                   else (s + 4) mod 12) + k) mod 12)
         \<and> (s = 0 \<and> w < 30 / 9 \<longrightarrow> navamsaSign s w = 0 \<and> js_nth SIGNS (navamsaSign s w) = Some ''Aries'')
         \<and> (s = 0 \<and> 8 * (30 / 9) \<le> w \<longrightarrow> navamsaSign s w = 8 \<and> js_nth SIGNS (navamsaSign s w) = Some ''Sagittarius'')"
proof -
  let ?b = "if s mod 3 = 0 then s else if s mod 3 = 1 then (s + 8) mod 12 else (s + 4) mod 12"
  let ?p = "\<lfloor>w / (30 / 9)\<rfloor>"
  have p0: "0 \<le> ?p" using assms(3) by simp
  have p8: "?p \<le> 8"
  proof -
    have "w / (30 / 9) < 9" using assms(4) by simp
    then have "?p < 9" by (simp add: floor_less_iff)
    then show ?thesis by simp
  qed
  have b0: "0 \<le> ?b" using assms(1) by simp
  have main: "navamsaSign s w = (?b + ?p) mod 12"
    using assms(1,2) b0 p0
    by (simp add: navamsaSign_def js_nth_QUALITY js_irem_nonneg Let_def)
  have parts: "navamsaSign s w = (?b + k) mod 12"
    if "of_int k * (30 / 9) \<le> w \<and> w < (of_int k + 1) * (30 / 9)" for k
  proof -
    have "?p = k" using that by (intro floor_part) simp_all
    then show ?thesis using main by simp
  qed
  have aries0: "navamsaSign s w = 0 \<and> js_nth SIGNS (navamsaSign s w) = Some ''Aries''"
    if "s = 0 \<and> w < 30 / 9"
  proof -
    have "navamsaSign s w = (?b + 0) mod 12"
      using that assms(3) by (intro parts) simp
    then have "navamsaSign s w = 0" using that by simp
    then show ?thesis by (simp add: js_nth_def SIGNS_def)
  qed
  have aries8: "navamsaSign s w = 8 \<and> js_nth SIGNS (navamsaSign s w) = Some ''Sagittarius''"
    if "s = 0 \<and> 8 * (30 / 9) \<le> w"
  proof -
    have "navamsaSign s w = (?b + 8) mod 12"
      using that assms(4) by (intro parts) simp
    then have "navamsaSign s w = 8" using that by simp
    then show ?thesis by (simp add: js_nth_def SIGNS_def)
  qed
  note q = js_nth_QUALITY [OF assms(1,2)]
  show ?thesis
    using main q p0 p8 parts aries0 aries8 by blast
qed

theorem navamsa_formula_witness:
  "navamsaSign 0 1 = 0 \<and> navamsaSign 0 29 = 8 \<and> navamsaSign 4 11 = 3 \<and> navamsaSign 5 29 = 5"
proof -
  have a: "(0::int) \<le> 0" "(0::int) < 12" "(0::real) \<le> 1" "(1::real) < 30" by simp_all
  have b: "(0::int) \<le> 0" "(0::int) < 12" "(0::real) \<le> 29" "(29::real) < 30" by simp_all
  have c: "(0::int) \<le> 4" "(4::int) < 12" "(0::real) \<le> 11" "(11::real) < 30" by simp_all
  have d: "(0::int) \<le> 5" "(5::int) < 12" "(0::real) \<le> 29" "(29::real) < 30" by simp_all
  show ?thesis
    using navamsa_formula [OF a] navamsa_formula [OF b] navamsa_formula [OF c]
      navamsa_formula [OF d]
    by simp
qed

section \<open>Nakshatra resolver\<close>

lemma two_powr_int: "2 powr of_int (int a - int b) = (2 ^ a / 2 ^ b :: real)"
proof -
  have "(2::real) powr of_int (int a - int b) = 2 powr (real a - real b)" by simp
  also have "\<dots> = 2 powr real a / 2 powr real b" by (rule powr_diff)
  also have "\<dots> = 2 ^ a / 2 ^ b" by (simp add: powr_realpow)
  finally show ?thesis .
qed

lemma fl_normal:
  assumes "2 ^ a / 2 ^ b \<le> \<bar>x\<bar>" "\<bar>x\<bar> < 2 * 2 ^ a / 2 ^ b"
  shows "fl x = of_int (round_even (x * 2 ^ (b + 52) / 2 ^ a)) * 2 ^ a / 2 ^ (b + 52)"
proof -
  define e where "e = int a - int b"
  have lo: "2 powr of_int e \<le> \<bar>x\<bar>"
    unfolding e_def two_powr_int using assms(1) .
  have "2 powr of_int (e + 1) = (2 ^ Suc a / 2 ^ b :: real)"
    using two_powr_int [of "Suc a" b] by (simp add: e_def algebra_simps)
  then have hi: "\<bar>x\<bar> < 2 powr of_int (e + 1)"
    using assms(2) by simp
  have pos: "0 < \<bar>x\<bar>"
    using lo by (smt (verit) powr_gt_zero)
  have "of_int e \<le> log 2 \<bar>x\<bar>"
    using lo pos by (simp add: le_log_iff)
  moreover have "log 2 \<bar>x\<bar> < of_int e + 1"
    using hi pos by (simp add: log_less_iff)
  ultimately have fl: "\<lfloor>log 2 \<bar>x\<bar>\<rfloor> = e"
    by (intro floor_unique) simp_all
  have u: "2 powr of_int (e - 52) = (2 ^ a / 2 ^ (b + 52) :: real)"
    using two_powr_int [of a "b + 52"] by (simp add: e_def algebra_simps)
  have "x \<noteq> 0" using pos by simp
  then have "fl x = of_int (round_even (x / (2 ^ a / 2 ^ (b + 52)))) * (2 ^ a / 2 ^ (b + 52))"
    unfolding fl_def Let_def fl u by simp
  then show ?thesis by simp
qed

text \<open>
  Known values of the rounding: the double written \<^verbatim>\<open>0.1\<close>, and two ties above \<open>2 ^ 53\<close>,
  which go to the even significand.
\<close>

lemma fl_known_values:
  "fl (1 / 10) = 3602879701896397 / 2 ^ 55"
  "fl (2 ^ 53 + 1) = 2 ^ 53"
  "fl (2 ^ 53 + 3) = 2 ^ 53 + 4"
proof -
  have "fl (1 / 10) = of_int (round_even ((1 / 10) * 2 ^ (4 + 52) / 2 ^ 0)) * 2 ^ 0 / 2 ^ (4 + 52)"
    by (rule fl_normal) simp_all
  also have "\<dots> = 3602879701896397 / 2 ^ 55"
    by (simp add: round_even_def)
  finally show "fl (1 / 10) = 3602879701896397 / 2 ^ 55" .
  have "fl (2 ^ 53 + 1)
          = of_int (round_even ((2 ^ 53 + 1) * 2 ^ (0 + 52) / 2 ^ 53)) * 2 ^ 53 / 2 ^ (0 + 52)"
    by (rule fl_normal) simp_all
  also have "\<dots> = 2 ^ 53"
    by (simp add: round_even_def)
  finally show "fl (2 ^ 53 + 1) = 2 ^ 53" .
  have "fl (2 ^ 53 + 3)
          = of_int (round_even ((2 ^ 53 + 3) * 2 ^ (0 + 52) / 2 ^ 53)) * 2 ^ 53 / 2 ^ (0 + 52)"
    by (rule fl_normal) simp_all
  also have "\<dots> = 2 ^ 53 + 4"
    by (simp add: round_even_def)
  finally show "fl (2 ^ 53 + 3) = 2 ^ 53 + 4" .
qed

lemma fl_span: "fl DEG_PER_NAK = 7505999378950827 / 2 ^ 49"
proof -
  have "fl (40 / 3) = of_int (round_even ((40 / 3) * 2 ^ (0 + 52) / 2 ^ 3)) * 2 ^ 3 / 2 ^ (0 + 52)"
    by (rule fl_normal) simp_all
  also have "\<dots> = 7505999378950827 / 2 ^ 49"
    by (simp add: round_even_def)
  finally show ?thesis by (simp add: DEG_PER_NAK_def)
qed


lemma fl_pada: "fl DEG_PER_PADA = 7505999378950827 / 2 ^ 51"
proof -
  have "fl (10 / 3) = of_int (round_even ((10 / 3) * 2 ^ (0 + 52) / 2 ^ 1)) * 2 ^ 1 / 2 ^ (0 + 52)"
    by (rule fl_normal) simp_all
  also have "\<dots> = 7505999378950827 / 2 ^ 51"
    by (simp add: round_even_def)
  finally show ?thesis by (simp add: DEG_PER_PADA_def DEG_PER_NAK_def)
qed

lemma fl_zero: "fl 0 = 0"
  by (simp add: fl_def)

lemma js_rem_small:
  assumes "0 \<le> x" "x < y"
  shows "js_rem x y = x"
proof -
  have "0 \<le> x / y" "x / y < 1" using assms by simp_all
  then have "\<lfloor>x / y\<rfloor> = 0" by (simp add: floor_eq_iff)
  then show ?thesis using \<open>0 \<le> x / y\<close> by (simp add: js_rem_def)
qed

lemma norm360_ieee_zero: "norm360_ieee 0 = 0"
proof -
  have "fl 360 = of_int (round_even (360 * 2 ^ (0 + 52) / 2 ^ 8)) * 2 ^ 8 / 2 ^ (0 + 52)"
    by (rule fl_normal) simp_all
  also have "\<dots> = 360"
    by (simp add: round_even_def)
  finally have "fl 360 = 360" .
  then show ?thesis
    by (simp add: norm360_ieee_def js_rem_def)
qed

lemma norm360_ieee_span: "norm360_ieee (7505999378950827 / 2 ^ 49) = 234562480592213 / 2 ^ 44"
proof -
  have r: "js_rem (7505999378950827 / 2 ^ 49) 360 = 7505999378950827 / 2 ^ 49"
    by (rule js_rem_small) simp_all
  have "fl (7505999378950827 / 2 ^ 49 + 360)
          = of_int (round_even ((7505999378950827 / 2 ^ 49 + 360) * 2 ^ (0 + 52) / 2 ^ 8))
              * 2 ^ 8 / 2 ^ (0 + 52)"
    by (rule fl_normal) simp_all
  also have "\<dots> = 6567749456581973 / 2 ^ 44"
    by (simp add: round_even_def)
  finally have a: "fl (7505999378950827 / 2 ^ 49 + 360) = 6567749456581973 / 2 ^ 44" .
  have "js_rem (6567749456581973 / 2 ^ 44) 360 = 234562480592213 / 2 ^ 44"
    by (simp add: js_rem_def)
  then show ?thesis
    unfolding norm360_ieee_def r a .
qed


lemma nakForDeg_zero:
  "nakForDeg 0 = \<lparr> nk_index = 0, nk_name = Some ''Ashwini'', nk_pada = 1,
                    nk_lord = Some ''Ketu'' \<rparr>"
  by (simp add: nakForDeg_def norm360_ieee_zero fl_zero js_nth_def NAK_NAMES_def LORD_SEQ_def
      js_irem_def)

lemma nakForDeg_span:
  "nakForDeg (7505999378950827 / 2 ^ 49)
     = \<lparr> nk_index = 0, nk_name = Some ''Ashwini'', nk_pada = 4, nk_lord = Some ''Ketu'' \<rparr>"
proof -
  let ?L = "234562480592213 / 2 ^ 44 :: real"
  let ?D = "7505999378950827 / 2 ^ 49 :: real"
  let ?P = "7505999378950827 / 2 ^ 51 :: real"
  have "fl (?L / ?D) = of_int (round_even ((?L / ?D) * 2 ^ (1 + 52) / 2 ^ 0)) * 2 ^ 0 / 2 ^ (1 + 52)"
    by (rule fl_normal) simp_all
  also have "\<dots> = 9007199254740979 / 2 ^ 53"
    by (simp add: round_even_def)
  finally have q: "fl (?L / ?D) = 9007199254740979 / 2 ^ 53" .
  have idx: "\<lfloor>fl (?L / ?D)\<rfloor> = 0"
    unfolding q by simp
  have "fl ?L = of_int (round_even (?L * 2 ^ (0 + 52) / 2 ^ 3)) * 2 ^ 3 / 2 ^ (0 + 52)"
    by (rule fl_normal) simp_all
  also have "\<dots> = ?L"
    by (simp add: round_even_def)
  finally have w: "fl (?L - fl (of_int 0 * ?D)) = ?L"
    by (simp add: fl_zero)
  have "fl (?L / ?P) = of_int (round_even ((?L / ?P) * 2 ^ (0 + 52) / 2 ^ 1)) * 2 ^ 1 / 2 ^ (0 + 52)"
    by (rule fl_normal) simp_all
  also have "\<dots> = 9007199254740979 / 2 ^ 51"
    by (simp add: round_even_def)
  finally have p: "fl (?L / ?P) = 9007199254740979 / 2 ^ 51" .
  have pada: "\<lfloor>fl (?L / ?P)\<rfloor> + 1 = 4"
    unfolding p by simp
  show ?thesis
    unfolding nakForDeg_def Let_def norm360_ieee_span fl_span fl_pada idx w pada
    by (simp add: js_nth_def NAK_NAMES_def LORD_SEQ_def js_irem_def)
qed


text \<open>Longitude 20, in the second nakshatra: the exact quotient 2 of the pada rounds below 2.\<close>

lemma norm360_ieee_twenty: "norm360_ieee 20 = 20"
proof -
  have "fl 380 = of_int (round_even (380 * 2 ^ (0 + 52) / 2 ^ 8)) * 2 ^ 8 / 2 ^ (0 + 52)"
    by (rule fl_normal) simp_all
  also have "\<dots> = 380"
    by (simp add: round_even_def)
  finally have "fl 380 = 380" .
  then show ?thesis
    by (simp add: norm360_ieee_def js_rem_def)
qed

lemma nakForDeg_twenty:
  "nakForDeg 20
     = \<lparr> nk_index = 1, nk_name = Some ''Bharani'', nk_pada = 2, nk_lord = Some ''Venus'' \<rparr>"
proof -
  let ?D = "7505999378950827 / 2 ^ 49 :: real"
  let ?P = "7505999378950827 / 2 ^ 51 :: real"
  let ?W = "3752999689475413 / 2 ^ 49 :: real"
  have "fl (20 / ?D) = of_int (round_even ((20 / ?D) * 2 ^ (0 + 52) / 2 ^ 0)) * 2 ^ 0 / 2 ^ (0 + 52)"
    by (rule fl_normal) simp_all
  also have "\<dots> = 3 / 2"
    by (simp add: round_even_def)
  finally have q: "fl (20 / ?D) = 3 / 2" .
  have idx: "\<lfloor>fl (20 / ?D)\<rfloor> = 1"
    unfolding q by simp
  have "fl ?D = of_int (round_even (?D * 2 ^ (0 + 52) / 2 ^ 3)) * 2 ^ 3 / 2 ^ (0 + 52)"
    by (rule fl_normal) simp_all
  also have "\<dots> = ?D"
    by (simp add: round_even_def)
  finally have d: "fl (of_int 1 * ?D) = ?D"
    by simp
  have "fl ?W = of_int (round_even (?W * 2 ^ (0 + 52) / 2 ^ 2)) * 2 ^ 2 / 2 ^ (0 + 52)"
    by (rule fl_normal) simp_all
  also have "\<dots> = ?W"
    by (simp add: round_even_def)
  finally have w: "fl (20 - ?D) = ?W"
    by simp
  have "fl (?W / ?P) = of_int (round_even ((?W / ?P) * 2 ^ (0 + 52) / 2 ^ 0)) * 2 ^ 0 / 2 ^ (0 + 52)"
    by (rule fl_normal) simp_all
  also have "\<dots> = 9007199254740991 / 2 ^ 52"
    by (simp add: round_even_def)
  finally have p: "fl (?W / ?P) = 9007199254740991 / 2 ^ 52" .
  have pada: "\<lfloor>fl (?W / ?P)\<rfloor> + 1 = 2"
    unfolding p by simp
  show ?thesis
    unfolding nakForDeg_def Let_def norm360_ieee_twenty fl_span fl_pada idx d w pada
    by (simp add: js_nth_def NAK_NAMES_def LORD_SEQ_def js_irem_def)
qed

text \<open>
  Claim C3, at its two longitudes, in the double arithmetic of the program. At longitude 0
  the resolver returns index 0 (Ashwini), pada 1 and lord Ketu. At exactly one span, the
  double \<^verbatim>\<open>360 / 27\<close> that the program calls \<^verbatim>\<open>DEG_PER_NAK\<close>, the normalisation adds 360 and
  the sum is rounded: the longitude comes back smaller by \<open>11 / 2 ^ 49\<close>, below the span, and
  the resolver returns index 0 (Ashwini), pada 4, lord Ketu, not index 1 (Bharani).
\<close>

theorem nakshatra_boundary_in_doubles:
  "nakForDeg 0 = \<lparr> nk_index = 0, nk_name = Some ''Ashwini'', nk_pada = 1,
                    nk_lord = Some ''Ketu'' \<rparr> \<and>
   fl DEG_PER_NAK = 7505999378950827 / 2 ^ 49 \<and>
   norm360_ieee (fl DEG_PER_NAK) = 234562480592213 / 2 ^ 44 \<and>
   norm360_ieee (fl DEG_PER_NAK) < fl DEG_PER_NAK \<and>
   nakForDeg (fl DEG_PER_NAK) = \<lparr> nk_index = 0, nk_name = Some ''Ashwini'', nk_pada = 4,
                    nk_lord = Some ''Ketu'' \<rparr>"
  unfolding fl_span norm360_ieee_span nakForDeg_span nakForDeg_zero by simp

section \<open>Panchanga: tithi, karana and missing luminaries\<close>

lemma panchangaFrom_finite:
  assumes "map_of (positions ch) ''Sun'' = Some (Fin sun)"
    and "map_of (positions ch) ''Moon'' = Some (Fin moon)"
    and "wl (jd_ut ch) (timezone ch) = Inr v"
  shows "panchangaFrom wl (Some ch) =
     Inr (Some \<lparr> vara = v,
        tithiNum = \<lfloor>norm360 (moon - sun) / 12\<rfloor> + 1,
        tithiName =
          (if \<lfloor>norm360 (moon - sun) / 12\<rfloor> + 1 \<le> 15
           then js_nth TITHI_15 (js_irem \<lfloor>norm360 (moon - sun) / 12\<rfloor> 15)
           else if js_irem \<lfloor>norm360 (moon - sun) / 12\<rfloor> 15 = 14
           then Some TITHI_15_KRISHNA_LAST
           else js_nth TITHI_15 (js_irem \<lfloor>norm360 (moon - sun) / 12\<rfloor> 15)),
        paksha = (if \<lfloor>norm360 (moon - sun) / 12\<rfloor> + 1 \<le> 15 then ''Shukla'' else ''Krishna''),
        nakshatra = nk_name (nakForDeg moon),
        pada = nk_pada (nakForDeg moon),
        yoga = js_nth YOGAS_27 \<lfloor>norm360 (moon + sun) / DEG_PER_NAK\<rfloor>,
        karana =
          (if \<lfloor>norm360 (moon - sun) / 6\<rfloor> = 0 then Some ''Kimstughna''
           else if \<lfloor>norm360 (moon - sun) / 6\<rfloor> \<ge> 57
           then js_nth KARANA_END (\<lfloor>norm360 (moon - sun) / 6\<rfloor> - 57)
           else js_nth KARANA_ROT (js_irem (\<lfloor>norm360 (moon - sun) / 6\<rfloor> - 1) 7)) \<rparr>)"
  using assms by (simp add: panchangaFrom_def Let_def)










text \<open>
  Claim C8. When the chart is absent, or the Sun or the Moon longitude is missing or not
  finite, the panchanga computation returns \<^verbatim>\<open>null\<close> (before the weekday formatter is
  called), and it returns \<^verbatim>\<open>null\<close> in no other case: any record it returns holds all
  the limbs.
\<close>

theorem panchanga_absent_without_sun_moon:
  "panchangaFrom wl None = Inr None \<and>
   (\<not> isFinite (map_of (positions ch) ''Sun'') \<or> \<not> isFinite (map_of (positions ch) ''Moon'')
      \<longrightarrow> panchangaFrom wl (Some ch) = Inr None) \<and>
   (panchangaFrom wl (Some ch) = Inr None
      \<longrightarrow> \<not> isFinite (map_of (positions ch) ''Sun'') \<or> \<not> isFinite (map_of (positions ch) ''Moon''))"
proof (intro conjI impI)
  show "panchangaFrom wl None = Inr None"
    by (simp add: panchangaFrom_def)
  show "panchangaFrom wl (Some ch) = Inr None"
    if "\<not> isFinite (map_of (positions ch) ''Sun'') \<or> \<not> isFinite (map_of (positions ch) ''Moon'')"
    using that by (simp add: panchangaFrom_def Let_def)
  show "\<not> isFinite (map_of (positions ch) ''Sun'') \<or> \<not> isFinite (map_of (positions ch) ''Moon'')"
    if r: "panchangaFrom wl (Some ch) = Inr None"
  proof (rule ccontr)
    assume "\<not> ?thesis"
    then obtain sun moon where sm: "map_of (positions ch) ''Sun'' = Some (Fin sun)"
      "map_of (positions ch) ''Moon'' = Some (Fin moon)"
      by (auto elim!: isFinite.elims)
    show False
    proof (cases "wl (jd_ut ch) (timezone ch)")
      case (Inl e)
      then show False using r sm by (simp add: panchangaFrom_def Let_def)
    next
      case (Inr v)
      show False using r unfolding panchangaFrom_finite [of ch sun moon wl v, OF sm Inr] by simp
    qed
  qed
qed

text \<open>A Sun that is \<^verbatim>\<open>NaN\<close>, a Moon that is missing, and both present.\<close>

theorem panchanga_absent_without_sun_moon_witness:
  "panchangaFrom (\<lambda>jd tz. Inr ''Saturday'')
     (Some \<lparr> jd_ut = Fin 2451545, timezone = ''UTC'', ascendant = Fin 100,
              positions = [(''Sun'', NaN), (''Moon'', Fin 20)], aspects = [] \<rparr>) = Inr None \<and>
   panchangaFrom (\<lambda>jd tz. Inr ''Saturday'')
     (Some \<lparr> jd_ut = Fin 2451545, timezone = ''UTC'', ascendant = Fin 100,
              positions = [(''Sun'', Fin 10), (''Mercury'', Fin 30)], aspects = [] \<rparr>) = Inr None \<and>
   panchangaFrom (\<lambda>jd tz. Inr ''Saturday'')
     (Some \<lparr> jd_ut = Fin 2451545, timezone = ''UTC'', ascendant = Fin 100,
              positions = [(''Sun'', Fin 10), (''Moon'', Fin 20)], aspects = [] \<rparr>) \<noteq> Inr None"
  using panchanga_absent_without_sun_moon
      [of "\<lambda>jd tz. Inr ''Saturday''"
          "\<lparr> jd_ut = Fin 2451545, timezone = ''UTC'', ascendant = Fin 100,
             positions = [(''Sun'', NaN), (''Moon'', Fin 20)], aspects = [] \<rparr>"]
    panchanga_absent_without_sun_moon
      [of "\<lambda>jd tz. Inr ''Saturday''"
          "\<lparr> jd_ut = Fin 2451545, timezone = ''UTC'', ascendant = Fin 100,
             positions = [(''Sun'', Fin 10), (''Mercury'', Fin 30)], aspects = [] \<rparr>"]
    panchanga_absent_without_sun_moon
      [of "\<lambda>jd tz. Inr ''Saturday''"
          "\<lparr> jd_ut = Fin 2451545, timezone = ''UTC'', ascendant = Fin 100,
             positions = [(''Sun'', Fin 10), (''Moon'', Fin 20)], aspects = [] \<rparr>"]
  by auto

section \<open>Degrees on a partition edge\<close>

lemma mod12_step: "(x + 1) mod 12 \<noteq> x mod (12::int)"
  by (simp add: mod_eq_dvd_iff)

lemma drekkana_part:
  assumes "0 \<le> s" "0 \<le> k" "k < 3" "of_int k * 10 \<le> w" "w < (of_int k + 1) * 10"
  shows "drekkanaSign s w = Some ((s + 4 * k) mod 12)"
proof -
  have p: "\<lfloor>w / 10\<rfloor> = k" using assms(4,5) by (intro floor_part) simp_all
  have "k = 0 \<or> k = 1 \<or> k = 2" using assms(2,3) by arith
  then show ?thesis
    using assms(1) by (auto simp: drekkanaSign_def p js_nth_def js_irem_nonneg)
qed

lemma saptamsa_part:
  assumes "0 \<le> s" "0 \<le> k" "of_int k * (30 / 7) \<le> w" "w < (of_int k + 1) * (30 / 7)"
  shows "saptamsaSign s w = ((if even s then s else (s + 6) mod 12) + k) mod 12"
proof -
  have p: "\<lfloor>w / (30 / 7)\<rfloor> = k" using assms(3,4) by (intro floor_part) simp_all
  show ?thesis
    unfolding saptamsaSign_def Let_def p
    using assms(1,2) by (simp add: ODD_iff_even js_irem_nonneg)
qed

lemma navamsa_part:
  assumes "0 \<le> s" "s < 12" "0 \<le> k" "of_int k * (30 / 9) \<le> w" "w < (of_int k + 1) * (30 / 9)"
  shows "navamsaSign s w =
    ((if s mod 3 = 0 then s else if s mod 3 = 1 then (s + 8) mod 12 else (s + 4) mod 12) + k)
      mod 12"
proof -
  have p: "\<lfloor>w / (30 / 9)\<rfloor> = k" using assms(4,5) by (intro floor_part) simp_all
  show ?thesis
    unfolding navamsaSign_def Let_def p
    using assms(1,2,3) by (simp add: js_nth_QUALITY js_irem_nonneg)
qed

lemma dasamsa_part:
  assumes "0 \<le> s" "0 \<le> k" "of_int k * 3 \<le> w" "w < (of_int k + 1) * 3"
  shows "dasamsaSign s w = ((if even s then s else (s + 8) mod 12) + k) mod 12"
proof -
  have p: "\<lfloor>w / 3\<rfloor> = k" using assms(3,4) by (intro floor_part) simp_all
  show ?thesis
    using assms(1,2) by (simp add: dasamsaSign_def p ODD_iff_even js_irem_nonneg)
qed

lemma dwadasamsa_part:
  assumes "0 \<le> s" "0 \<le> k" "of_int k * (5 / 2) \<le> w" "w < (of_int k + 1) * (5 / 2)"
  shows "dwadasamsaSign s w = (s + k) mod 12"
proof -
  have p: "\<lfloor>w / (5 / 2)\<rfloor> = k" using assms(3,4) by (intro floor_part) simp_all
  show ?thesis
    unfolding dwadasamsaSign_def Let_def p
    using assms(1,2) by (simp add: js_irem_nonneg)
qed

text \<open>
  Claim C2, as stated, at the edge 5 of D30 and the edge 10 of D3 in Aries: the edge maps
  as the band above it does (Aquarius, index 10; Leo, index 4), not as the band below it
  (Aries, index 0).
\<close>

theorem varga_edge_counterexample:
  "trimshamsaSign 0 4 = 0 \<and> trimshamsaSign 0 5 = 10 \<and> trimshamsaSign 0 6 = 10 \<and>
   drekkanaSign 0 9 = Some 0 \<and> drekkanaSign 0 10 = Some 4 \<and> drekkanaSign 0 11 = Some 4"
  by (simp add: trimshamsaSign_def ODD_def drekkanaSign_def js_nth_def js_irem_def)


lemma edge_from_parts:
  fixes f :: "real \<Rightarrow> int" and c :: real
  assumes c: "0 < c" and k: "1 \<le> k"
    and part: "\<And>j w. 0 \<le> j \<Longrightarrow> of_int j * c \<le> w \<Longrightarrow> w < (of_int j + 1) * c
                 \<Longrightarrow> f w = (b + j) mod 12"
  shows "edge_upper f ((of_int k - 1) * c) (of_int k * c) ((of_int k + 1) * c) w"
proof (intro conjI impI)
  have at: "f (of_int k * c) = (b + k) mod 12"
    using c k by (intro part) (simp_all add: algebra_simps)
  show "f w = f (of_int k * c)" if "of_int k * c \<le> w \<and> w < (of_int k + 1) * c"
  proof -
    have "f w = (b + k) mod 12"
      using that k by (intro part) simp_all
    then show ?thesis using at by simp
  qed
  show "f w \<noteq> f (of_int k * c)" if "(of_int k - 1) * c \<le> w \<and> w < of_int k * c"
  proof -
    have "f w = (b + (k - 1)) mod 12"
      using that k by (intro part) simp_all
    then show ?thesis
      using at mod12_step [of "b + (k - 1)"] by simp
  qed
qed

lemma hora_edge: "edge_upper (horaSign s) 0 15 30 w"
  by (simp add: horaSign_def)

lemma trimshamsa_edges:
  "edge_upper (trimshamsaSign s) 0 5 10 w \<and> edge_upper (trimshamsaSign s) 5 10 18 w \<and>
   edge_upper (trimshamsaSign s) 10 18 25 w \<and> edge_upper (trimshamsaSign s) 18 25 30 w"
  by (simp add: trimshamsaSign_def)

lemma drekkana_edge:
  assumes "0 \<le> s" "1 \<le> k" "k < 3"
  shows "edge_upper (drekkanaSign s) ((of_int k - 1) * 10) (of_int k * 10) ((of_int k + 1) * 10) w
         \<and> drekkanaSign s (of_int k * 10) = Some ((s + 4 * k) mod 12)"
proof (intro conjI impI)
  show at: "drekkanaSign s (of_int k * 10) = Some ((s + 4 * k) mod 12)"
    using assms by (intro drekkana_part) simp_all
  show "drekkanaSign s w = drekkanaSign s (of_int k * 10)"
    if "of_int k * 10 \<le> w \<and> w < (of_int k + 1) * 10"
  proof -
    have "drekkanaSign s w = Some ((s + 4 * k) mod 12)"
      using that assms by (intro drekkana_part) simp_all
    then show ?thesis using at by simp
  qed
  show "drekkanaSign s w \<noteq> drekkanaSign s (of_int k * 10)"
    if "(of_int k - 1) * 10 \<le> w \<and> w < of_int k * 10"
  proof -
    have "drekkanaSign s w = Some ((s + 4 * (k - 1)) mod 12)"
      using that assms by (intro drekkana_part) simp_all
    moreover have "(s + 4 * (k - 1)) mod 12 \<noteq> (s + 4 * k) mod 12"
      by (simp add: mod_eq_dvd_iff algebra_simps)
    ultimately show ?thesis using at by simp
  qed
qed


text \<open>
  Claim C2, amended. For every sign index in 0..11, every varga system and every degree
  lying exactly on a partition edge (15 for D2; \<open>k * 30/N\<close> with \<open>0 < k < N\<close> for D3, D7, D9,
  D10, D12; 5, 10, 18, 25 for D30), the mapping resolves to the upper of the two bands
  meeting at the edge, the one that starts there (bands are half-open, floor semantics),
  and to a different sign than the lower band; the mappings are total, and the D3 mapping,
  whose table read can miss, returns a sign at every edge.
\<close>

theorem varga_edge_upper_band:
  assumes "0 \<le> s" "s < 12"
  shows "edge_upper (horaSign s) 0 15 30 w \<and>
    (1 \<le> k \<and> k < 3 \<longrightarrow>
       edge_upper (drekkanaSign s) ((of_int k - 1) * 10) (of_int k * 10) ((of_int k + 1) * 10) w
       \<and> drekkanaSign s (of_int k * 10) = Some ((s + 4 * k) mod 12)) \<and>
    (1 \<le> k \<and> k < 7 \<longrightarrow>
       edge_upper (saptamsaSign s) ((of_int k - 1) * (30 / 7)) (of_int k * (30 / 7))
         ((of_int k + 1) * (30 / 7)) w) \<and>
    (1 \<le> k \<and> k < 9 \<longrightarrow>
       edge_upper (navamsaSign s) ((of_int k - 1) * (30 / 9)) (of_int k * (30 / 9))
         ((of_int k + 1) * (30 / 9)) w) \<and>
    (1 \<le> k \<and> k < 10 \<longrightarrow>
       edge_upper (dasamsaSign s) ((of_int k - 1) * 3) (of_int k * 3) ((of_int k + 1) * 3) w) \<and>
    (1 \<le> k \<and> k < 12 \<longrightarrow>
       edge_upper (dwadasamsaSign s) ((of_int k - 1) * (5 / 2)) (of_int k * (5 / 2))
         ((of_int k + 1) * (5 / 2)) w) \<and>
    edge_upper (trimshamsaSign s) 0 5 10 w \<and> edge_upper (trimshamsaSign s) 5 10 18 w \<and>
    edge_upper (trimshamsaSign s) 10 18 25 w \<and> edge_upper (trimshamsaSign s) 18 25 30 w"
proof -
  have d3: "edge_upper (drekkanaSign s) ((of_int k - 1) * 10) (of_int k * 10)
              ((of_int k + 1) * 10) w
            \<and> drekkanaSign s (of_int k * 10) = Some ((s + 4 * k) mod 12)"
    if "1 \<le> k \<and> k < 3"
    using that assms(1) by (intro drekkana_edge) simp_all
  have d7: "edge_upper (saptamsaSign s) ((of_int k - 1) * (30 / 7)) (of_int k * (30 / 7))
              ((of_int k + 1) * (30 / 7)) w"
    if "1 \<le> k \<and> k < 7"
    by (rule edge_from_parts [where b = "if even s then s else (s + 6) mod 12"])
      (use that assms(1) in \<open>simp_all add: saptamsa_part\<close>)
  have d9: "edge_upper (navamsaSign s) ((of_int k - 1) * (30 / 9)) (of_int k * (30 / 9))
              ((of_int k + 1) * (30 / 9)) w"
    if "1 \<le> k \<and> k < 9"
    by (rule edge_from_parts [where b = "if s mod 3 = 0 then s else if s mod 3 = 1
          then (s + 8) mod 12 else (s + 4) mod 12"])
      (use that assms in \<open>simp_all add: navamsa_part\<close>)
  have d10: "edge_upper (dasamsaSign s) ((of_int k - 1) * 3) (of_int k * 3)
               ((of_int k + 1) * 3) w"
    if "1 \<le> k \<and> k < 10"
    by (rule edge_from_parts [where b = "if even s then s else (s + 8) mod 12"])
      (use that assms(1) in \<open>simp_all add: dasamsa_part\<close>)
  have d12: "edge_upper (dwadasamsaSign s) ((of_int k - 1) * (5 / 2)) (of_int k * (5 / 2))
               ((of_int k + 1) * (5 / 2)) w"
    if "1 \<le> k \<and> k < 12"
    by (rule edge_from_parts [where b = s])
      (use that assms(1) in \<open>simp_all add: dwadasamsa_part\<close>)
  note d30 = trimshamsa_edges [where s = s and w = w]
  show ?thesis
    apply (rule conjI [OF hora_edge])
    apply (rule conjI [OF impI [OF d3]], assumption)
    apply (rule conjI [OF impI [OF d7]], assumption)
    apply (rule conjI [OF impI [OF d9]], assumption)
    apply (rule conjI [OF impI [OF d10]], assumption)
    apply (rule conjI [OF impI [OF d12]], assumption)
    apply (rule d30)
    done
qed



text \<open>The edge theorem in Aries, below, on and above the edges 5 (D30) and 10 (D3).\<close>

theorem varga_edge_upper_band_witness:
  "trimshamsaSign 0 4 \<noteq> trimshamsaSign 0 5 \<and> trimshamsaSign 0 7 = trimshamsaSign 0 5 \<and>
   drekkanaSign 0 9 \<noteq> drekkanaSign 0 10 \<and> drekkanaSign 0 15 = drekkanaSign 0 10 \<and>
   drekkanaSign 0 10 = Some 4"
proof -
  have s: "(0::int) \<le> 0" "(0::int) < 12" by simp_all
  have a: "trimshamsaSign 0 4 \<noteq> trimshamsaSign 0 5"
    using varga_edge_upper_band [OF s, of 4 1] by simp
  have b: "trimshamsaSign 0 7 = trimshamsaSign 0 5"
    using varga_edge_upper_band [OF s, of 7 1] by simp
  have c: "drekkanaSign 0 9 \<noteq> drekkanaSign 0 10 \<and> drekkanaSign 0 10 = Some 4"
    using varga_edge_upper_band [OF s, of 9 1] by auto
  have d: "drekkanaSign 0 15 = drekkanaSign 0 10"
    using varga_edge_upper_band [OF s, of 15 1] by simp
  show ?thesis using a b c d by blast
qed

section \<open>The varga table skips bodies without a longitude\<close>

lemma js_rem_nonneg_range:
  fixes x y :: real
  assumes "0 \<le> x" "0 < y"
  shows "0 \<le> js_rem x y" "js_rem x y < y"
proof -
  have fl: "of_int \<lfloor>x / y\<rfloor> * y \<le> x" "x < (of_int \<lfloor>x / y\<rfloor> + 1) * y"
    using assms(2) by (rule floor_divide_lower, rule floor_divide_upper)
  have nn: "0 \<le> x / y" using assms by simp
  show "0 \<le> js_rem x y" using fl nn by (simp add: js_rem_def algebra_simps)
  show "js_rem x y < y" using fl nn by (simp add: js_rem_def algebra_simps)
qed

lemma signIndex_range: "0 \<le> signIndex x" "signIndex x < 12"
  using norm360_range [of x] by (simp_all add: signIndex_def floor_less_iff)

lemma within_range: "0 \<le> js_rem (norm360 x) 30" "js_rem (norm360 x) 30 < 30"
  using norm360_range(1) [of x] js_rem_nonneg_range [of "norm360 x" 30] by simp_all

lemma js_irem_12_range: "0 \<le> a \<Longrightarrow> 0 \<le> js_irem a 12 \<and> js_irem a 12 < 12"
  by (simp add: js_irem_nonneg)

lemma js_nth_SIGNS: "0 \<le> i \<Longrightarrow> i < 12 \<Longrightarrow> js_nth SIGNS i \<in> Some ` set SIGNS"
proof -
  assume "0 \<le> i" "i < 12"
  moreover have "length SIGNS = 12" by (simp add: SIGNS_def)
  ultimately have "js_nth SIGNS i = Some (SIGNS ! nat i)" "nat i < length SIGNS"
    by (simp_all add: js_nth_def)
  then show ?thesis by (simp add: nth_mem)
qed

lemma hora_range: "0 \<le> horaSign s w \<and> horaSign s w < 12"
  by (simp add: horaSign_def Let_def)

lemma trimshamsa_range: "0 \<le> trimshamsaSign s w \<and> trimshamsaSign s w < 12"
  by (simp add: trimshamsaSign_def Let_def)

lemma saptamsa_range:
  assumes "0 \<le> s" "0 \<le> w"
  shows "0 \<le> saptamsaSign s w \<and> saptamsaSign s w < 12"
proof -
  have "0 \<le> \<lfloor>w / (30 / 7)\<rfloor>" using assms(2) by simp
  then show ?thesis
    unfolding saptamsaSign_def Let_def using assms(1)
    by (intro js_irem_12_range) (simp add: js_irem_nonneg)
qed

lemma navamsa_range:
  assumes "0 \<le> s" "0 \<le> w"
  shows "0 \<le> navamsaSign s w \<and> navamsaSign s w < 12"
proof -
  have "0 \<le> \<lfloor>w / (30 / 9)\<rfloor>" using assms(2) by simp
  then show ?thesis
    unfolding navamsaSign_def Let_def using assms(1)
    by (intro js_irem_12_range) (simp add: js_irem_nonneg)
qed

lemma dasamsa_range:
  assumes "0 \<le> s" "0 \<le> w"
  shows "0 \<le> dasamsaSign s w \<and> dasamsaSign s w < 12"
proof -
  have "0 \<le> \<lfloor>w / 3\<rfloor>" using assms(2) by simp
  then show ?thesis
    unfolding dasamsaSign_def Let_def using assms(1)
    by (intro js_irem_12_range) (simp add: js_irem_nonneg)
qed

lemma dwadasamsa_range:
  assumes "0 \<le> s" "0 \<le> w"
  shows "0 \<le> dwadasamsaSign s w \<and> dwadasamsaSign s w < 12"
proof -
  have "0 \<le> \<lfloor>w / (5 / 2)\<rfloor>" using assms(2) by simp
  then show ?thesis
    unfolding dwadasamsaSign_def Let_def using assms(1)
    by (intro js_irem_12_range) simp
qed

lemma drekkana_range:
  assumes "0 \<le> s" "0 \<le> w" "w < 30"
  shows "\<exists>i. drekkanaSign s w = Some i \<and> 0 \<le> i \<and> i < 12"
proof -
  define p where "p = \<lfloor>w / 10\<rfloor>"
  have "0 \<le> p" "p < 3"
    unfolding p_def using assms(2,3) by (simp_all add: floor_less_iff)
  then have p: "p = 0 \<or> p = 1 \<or> p = 2" by arith
  have "drekkanaSign s w =
          (case js_nth [0, 4, 8] p of None \<Rightarrow> None | Some add \<Rightarrow> Some (js_irem (s + add) 12))"
    by (simp add: drekkanaSign_def p_def)
  then show ?thesis
    using p assms(1) by (auto simp: js_nth_def js_irem_nonneg)
qed

lemma vargaRow_None: "vargaRow b d = None \<longleftrightarrow> \<not> isFinite d"
  by (cases d rule: isFinite.cases) (simp_all add: vargaRow_def Let_def)

lemma vargaRow_body: "vargaRow b d = Some r \<Longrightarrow> body r = b"
  by (cases d rule: isFinite.cases) (auto simp: vargaRow_def Let_def)

lemma vargaRow_cells:
  assumes "vargaRow b d = Some r"
  shows "D1 r \<in> Some ` set SIGNS \<and> D2 r \<in> Some ` set SIGNS \<and> D3 r \<in> Some ` set SIGNS \<and>
         D7 r \<in> Some ` set SIGNS \<and> D9 r \<in> Some ` set SIGNS \<and> D10 r \<in> Some ` set SIGNS \<and>
         D12 r \<in> Some ` set SIGNS \<and> D30 r \<in> Some ` set SIGNS"
proof -
  from assms obtain x where d: "d = Some (Fin x)"
    by (cases d rule: isFinite.cases) (simp_all add: vargaRow_def)
  define s where "s = signIndex x"
  define w where "w = js_rem (norm360 x) 30"
  have s: "0 \<le> s" "s < 12" unfolding s_def by (rule signIndex_range)+
  have w: "0 \<le> w" "w < 30" unfolding w_def by (rule within_range)+
  have r: "r = \<lparr> body = b,
                 D1 = js_nth SIGNS s,
                 D2 = js_nth SIGNS (horaSign s w),
                 D3 = Option.bind (drekkanaSign s w) (js_nth SIGNS),
                 D7 = js_nth SIGNS (saptamsaSign s w),
                 D9 = js_nth SIGNS (navamsaSign s w),
                 D10 = js_nth SIGNS (dasamsaSign s w),
                 D12 = js_nth SIGNS (dwadasamsaSign s w),
                 D30 = js_nth SIGNS (trimshamsaSign s w) \<rparr>"
    using assms unfolding d s_def w_def by (simp add: vargaRow_def Let_def)
  obtain i where i: "drekkanaSign s w = Some i" "0 \<le> i" "i < 12"
    using drekkana_range [OF s(1) w] by blast
  show ?thesis
    unfolding r
    using s hora_range [of s w] saptamsa_range [OF s(1) w(1)] navamsa_range [OF s(1) w(1)]
      dasamsa_range [OF s(1) w(1)] dwadasamsa_range [OF s(1) w(1)] trimshamsa_range [of s w] i
    by (simp add: js_nth_SIGNS)
qed

lemma map_filter_rows:
  "map body (List.map_filter (\<lambda>b. vargaRow b (g b)) xs) = filter (\<lambda>b. isFinite (g b)) xs"
proof (induction xs)
  case Nil
  then show ?case by (simp add: List.map_filter_simps)
next
  case (Cons b xs)
  show ?case
  proof (cases "vargaRow b (g b)")
    case None
    then have "\<not> isFinite (g b)" by (simp add: vargaRow_None)
    then show ?thesis using Cons None by (simp add: List.map_filter_simps)
  next
    case (Some r)
    then have "isFinite (g b)" using vargaRow_None [of b "g b"] by simp
    then show ?thesis using Cons Some by (simp add: List.map_filter_simps vargaRow_body)
  qed
qed

lemma map_of_filter_finite:
  assumes "distinct (map fst xs)"
  shows "map_of (filter (\<lambda>kv. isFinite (Some (snd kv))) xs) k =
           (if isFinite (map_of xs k) then map_of xs k else None)"
  using assms
proof (induction xs)
  case Nil
  then show ?case by simp
next
  case (Cons kv xs)
  obtain k' v where kv: "kv = (k', v)" by (cases kv)
  have notin: "k' \<notin> fst ` set xs" using Cons.prems kv by simp
  then have none: "map_of xs k' = None" by (simp add: map_of_eq_None_iff)
  have none': "map_of (filter (\<lambda>kv. isFinite (Some (snd kv))) xs) k' = None"
    using notin by (auto simp: map_of_eq_None_iff)
  show ?case
    using Cons kv none none' by (cases "k = k'") auto
qed

lemma vargaRow_cong_finite:
  "d' = (if isFinite d then d else None) \<Longrightarrow> vargaRow b d' = vargaRow b d"
  by (cases d rule: isFinite.cases) (simp_all add: vargaRow_def)


lemma map_filter_mem:
  "r \<in> set (List.map_filter f xs) \<Longrightarrow> \<exists>x \<in> set xs. f x = Some r"
  by (induction xs) (auto split: option.splits)

text \<open>
  Claim C9. For every positions object (its keys distinct) and every ascendant, the varga
  table has exactly one row per body of the fixed list whose longitude is present and
  finite, in the order of the list; the table is the same as for the positions object with
  the non-finite entries left out; and the computation does not fail: every cell of every
  row is one of the twelve sign names.
\<close>

theorem vargaPlacements_rows:
  assumes "distinct (map fst pos)"
  shows "map body (vargaPlacements pos asc) = filter (\<lambda>b. isFinite (getDeg pos asc b)) bodies \<and>
         vargaPlacements (filter (\<lambda>kv. isFinite (Some (snd kv))) pos) asc
           = vargaPlacements pos asc \<and>
         (\<forall>r \<in> set (vargaPlacements pos asc).
            D1 r \<in> Some ` set SIGNS \<and> D2 r \<in> Some ` set SIGNS \<and> D3 r \<in> Some ` set SIGNS \<and>
            D7 r \<in> Some ` set SIGNS \<and> D9 r \<in> Some ` set SIGNS \<and> D10 r \<in> Some ` set SIGNS \<and>
            D12 r \<in> Some ` set SIGNS \<and> D30 r \<in> Some ` set SIGNS)"
proof -
  have rows: "map body (vargaPlacements pos asc)
                = filter (\<lambda>b. isFinite (getDeg pos asc b)) bodies"
    unfolding vargaPlacements_def by (rule map_filter_rows)
  let ?pos' = "filter (\<lambda>kv. isFinite (Some (snd kv))) pos"
  have "vargaRow b (getDeg ?pos' asc b) = vargaRow b (getDeg pos asc b)" for b
    unfolding getDeg_def
    by (simp add: map_of_filter_finite [OF assms] vargaRow_cong_finite)
  then have same: "vargaPlacements ?pos' asc = vargaPlacements pos asc"
    unfolding vargaPlacements_def by simp
  have cells: "D1 r \<in> Some ` set SIGNS \<and> D2 r \<in> Some ` set SIGNS \<and> D3 r \<in> Some ` set SIGNS \<and>
            D7 r \<in> Some ` set SIGNS \<and> D9 r \<in> Some ` set SIGNS \<and> D10 r \<in> Some ` set SIGNS \<and>
            D12 r \<in> Some ` set SIGNS \<and> D30 r \<in> Some ` set SIGNS"
    if "r \<in> set (vargaPlacements pos asc)" for r
  proof -
    from that obtain b where "vargaRow b (getDeg pos asc b) = Some r"
      unfolding vargaPlacements_def by (blast dest: map_filter_mem)
    then show ?thesis by (rule vargaRow_cells)
  qed
  show ?thesis
    apply (rule conjI [OF rows])
    apply (rule conjI [OF same])
    apply (rule ballI)
    apply (erule cells)
    done
qed

text \<open>A Moon that is \<^verbatim>\<open>NaN\<close> and nine bodies that are absent: three rows remain.\<close>

theorem vargaPlacements_rows_witness:
  "map body (vargaPlacements [(''Sun'', Fin 10), (''Moon'', NaN), (''Mercury'', Fin 30)] (Fin 100))
     = [''Ascendant'', ''Sun'', ''Mercury''] \<and>
   vargaPlacements [(''Sun'', Fin 10), (''Mercury'', Fin 30)] (Fin 100)
     = vargaPlacements [(''Sun'', Fin 10), (''Moon'', NaN), (''Mercury'', Fin 30)] (Fin 100)"
  using vargaPlacements_rows
    [of "[(''Sun'', Fin 10), (''Moon'', NaN), (''Mercury'', Fin 30)]" "Fin 100"]
  by (simp add: bodies_def getDeg_def)

section \<open>Ascendant aspects: disjoint orbs\<close>

lemma orbs_disjoint:
  assumes "A \<in> set ASPECTS_DEF" "B \<in> set ASPECTS_DEF" "inOrb d A" "inOrb d B"
  shows "A = B"
  using assms by (auto simp: ASPECTS_DEF_def inOrb_def)

lemma find_unique_set:
  assumes uniq: "\<And>x y. x \<in> set xs \<Longrightarrow> y \<in> set xs \<Longrightarrow> P x \<Longrightarrow> P y \<Longrightarrow> x = y"
    and sets: "set ys = set xs"
  shows "find P ys = find P xs"
proof (cases "find P xs")
  case None
  then have "\<not> (\<exists>x. x \<in> set xs \<and> P x)" by (simp add: find_None_iff)
  then have "find P ys = None" using sets by (simp add: find_None_iff)
  then show ?thesis using None by simp
next
  case (Some x)
  then have x: "x \<in> set xs" "P x"
    by (auto simp: find_Some_iff)
  then have "\<exists>y. y \<in> set ys \<and> P y" using sets by auto
  then obtain y where y: "find P ys = Some y"
    by (cases "find P ys") (auto simp: find_None_iff)
  then have "y \<in> set ys" "P y" by (auto simp: find_Some_iff)
  then have "y = x" using uniq x sets by blast
  then show ?thesis using y Some by simp
qed

lemma ascAspect_reordered:
  assumes "set defs = set ASPECTS_DEF"
  shows "ascAspect defs asc n deg = ascAspect ASPECTS_DEF asc n deg"
proof -
  have eq: "find (inOrb d) defs = find (inOrb d) ASPECTS_DEF" for d
    using assms by (intro find_unique_set) (auto dest: orbs_disjoint)
  show ?thesis unfolding ascAspect_def Let_def eq by (rule refl)
qed

lemma ascAspect_length: "length (ascAspect defs asc n deg) \<le> 1"
  by (simp add: ascAspect_def Let_def split: number.splits option.splits)

lemma ascAspect_b: "p \<in> set (ascAspect defs asc n deg) \<Longrightarrow> ap_b p = n"
  by (auto simp: ascAspect_def Let_def split: number.splits option.splits if_splits)

lemma one_record_per_key:
  assumes "distinct names"
  shows "length (filter (\<lambda>p. ap_b p = n) (concat (map (\<lambda>k. ascAspect defs asc k (m k)) names))) \<le> 1"
  using assms
proof (induction names)
  case Nil
  then show ?case by simp
next
  case (Cons k ks)
  let ?g = "\<lambda>k. ascAspect defs asc k (m k)"
  show ?case
  proof (cases "k = n")
    case True
    then have "n \<notin> set ks" using Cons.prems by simp
    then have "filter (\<lambda>p. ap_b p = n) (concat (map ?g ks)) = []"
      by (auto simp: filter_empty_conv dest: ascAspect_b)
    moreover have "length (filter (\<lambda>p. ap_b p = n) (?g k)) \<le> 1"
      using length_filter_le [of "\<lambda>p. ap_b p = n" "?g k"] ascAspect_length [of defs asc k "m k"]
      by linarith
    ultimately show ?thesis by simp
  next
    case False
    then have "filter (\<lambda>p. ap_b p = n) (?g k) = []"
      by (auto simp: filter_empty_conv dest: ascAspect_b)
    then show ?thesis using Cons by simp
  qed
qed

lemma filter_at_most_one:
  assumes "\<And>x y. x \<in> set xs \<Longrightarrow> y \<in> set xs \<Longrightarrow> P x \<Longrightarrow> P y \<Longrightarrow> x = y" "distinct xs"
  shows "length (filter P xs) \<le> 1"
proof (rule ccontr)
  assume "\<not> length (filter P xs) \<le> 1"
  then obtain x y zs where f: "filter P xs = x # y # zs"
    by (cases "filter P xs"; cases "tl (filter P xs)") auto
  have "distinct (filter P xs)" using assms(2) by simp
  then have "x \<noteq> y" using f by simp
  moreover have "x \<in> set (filter P xs)" "y \<in> set (filter P xs)" using f by simp_all
  ultimately show False using assms(1) by auto
qed

text \<open>
  Claim C10. The five orb windows of the aspect table are pairwise disjoint: a distance lies
  in the orb of at most one definition. So, for a positions object with distinct keys, the
  ascendant-aspect detector emits at most one record for each body, and it emits the same
  records when the definitions are tried in any other order (any table with the same
  entries).
\<close>

theorem asc_aspect_unique:
  assumes "distinct (map fst (positions ch))"
  shows "(\<forall>A \<in> set ASPECTS_DEF. \<forall>B \<in> set ASPECTS_DEF. inOrb d A \<and> inOrb d B \<longrightarrow> A = B) \<and>
         length (filter (inOrb d) ASPECTS_DEF) \<le> 1 \<and>
         length (filter (\<lambda>p. ap_b p = n) (deriveAscAspects ch)) \<le> 1 \<and>
         (set defs = set ASPECTS_DEF \<longrightarrow> deriveAscAspectsWith defs ch = deriveAscAspects ch)"
proof -
  have dis: "\<forall>A \<in> set ASPECTS_DEF. \<forall>B \<in> set ASPECTS_DEF. inOrb d A \<and> inOrb d B \<longrightarrow> A = B"
    by (blast dest: orbs_disjoint)
  have "distinct ASPECTS_DEF" by (simp add: ASPECTS_DEF_def)
  then have one: "length (filter (inOrb d) ASPECTS_DEF) \<le> 1"
    by (intro filter_at_most_one) (auto dest: orbs_disjoint)
  have per: "length (filter (\<lambda>p. ap_b p = n) (deriveAscAspects ch)) \<le> 1"
    unfolding deriveAscAspects_def deriveAscAspectsWith_def Let_def
    using assms by (rule one_record_per_key)
  have ord: "deriveAscAspectsWith defs ch = deriveAscAspects ch" if "set defs = set ASPECTS_DEF"
    unfolding deriveAscAspects_def deriveAscAspectsWith_def Let_def
    by (simp add: ascAspect_reordered [OF that])
  show ?thesis using dis one per ord by blast
qed

text \<open>Ascendant 100, Sun 280, Moon 40, with the table reversed.\<close>

theorem asc_aspect_unique_witness:
  "length (filter (\<lambda>p. ap_b p = ''Sun'')
     (deriveAscAspects \<lparr> jd_ut = Fin 2451545, timezone = ''UTC'', ascendant = Fin 100,
        positions = [(''Sun'', Fin 280), (''Moon'', Fin 40)], aspects = [] \<rparr>)) \<le> 1 \<and>
   deriveAscAspectsWith (rev ASPECTS_DEF)
     \<lparr> jd_ut = Fin 2451545, timezone = ''UTC'', ascendant = Fin 100,
        positions = [(''Sun'', Fin 280), (''Moon'', Fin 40)], aspects = [] \<rparr>
   = deriveAscAspects \<lparr> jd_ut = Fin 2451545, timezone = ''UTC'', ascendant = Fin 100,
        positions = [(''Sun'', Fin 280), (''Moon'', Fin 40)], aspects = [] \<rparr>"
  using asc_aspect_unique
    [of "\<lparr> jd_ut = Fin 2451545, timezone = ''UTC'', ascendant = Fin 100,
        positions = [(''Sun'', Fin 280), (''Moon'', Fin 40)], aspects = [] \<rparr>"
      0 "''Sun''" "rev ASPECTS_DEF"]
  by simp

lemma deriveAscAspects_example:
  "deriveAscAspects \<lparr> jd_ut = Fin 2451545, timezone = ''UTC'', ascendant = Fin 100,
        positions = [(''Sun'', Fin 280), (''Moon'', Fin 40)], aspects = [] \<rparr>
   = [\<lparr> ap_a = ''Ascendant'', ap_b = ''Sun'', ap_type = ''Opposition'', ap_delta = 0 \<rparr>,
      \<lparr> ap_a = ''Ascendant'', ap_b = ''Moon'', ap_type = ''Sextile'', ap_delta = 0 \<rparr>]"
  by (simp add: deriveAscAspects_def deriveAscAspectsWith_def ascAspect_def angDiff_def
      norm360_id ASPECTS_DEF_def inOrb_def toFixed2_def)

section \<open>Merging aspect lists\<close>

lemma Map_set_dom: "fst ` set (Map_set m k v) = insert k (fst ` set m)"
proof (induction m)
  case Nil
  then show ?case by simp
next
  case (Cons kv m)
  obtain k' v' where kv: "kv = (k', v')" by (cases kv)
  show ?case
  proof (cases "k' = k")
    case True
    then show ?thesis by (simp add: kv)
  next
    case False
    then show ?thesis using Cons by (simp add: kv insert_commute)
  qed
qed

lemma Map_set_distinct: "distinct (map fst m) \<Longrightarrow> distinct (map fst (Map_set m k v))"
  by (induction m) (auto simp: Map_set_dom)

lemma Map_set_lookup: "map_of (Map_set m k v) = (map_of m)(k \<mapsto> v)"
  by (induction m) auto

lemma Map_set_keyed:
  assumes "\<forall>kv \<in> set m. fst kv = f (snd kv)"
  shows "\<forall>kv \<in> set (Map_set m (f v) v). fst kv = f (snd kv)"
proof -
  have "kv \<in> set (Map_set m (f v) v) \<Longrightarrow> \<forall>kv \<in> set m. fst kv = f (snd kv)
          \<Longrightarrow> fst kv = f (snd kv)" for kv
    by (induction m) (auto split: if_splits)
  then show ?thesis using assms by blast
qed

lemma find_app:
  "find P (xs @ ys) = (case find P xs of None \<Rightarrow> find P ys | Some x \<Rightarrow> Some x)"
  by (induction xs) auto

lemma keyed_map:
  "\<forall>kv \<in> set m. fst kv = f (snd kv) \<Longrightarrow> map f (map snd m) = map fst m"
  by (induction m) auto

lemma fold_Map_set:
  assumes "distinct (map fst m)" "\<forall>kv \<in> set m. fst kv = key (snd kv)"
  shows "distinct (map fst (fold (\<lambda>p m. Map_set m (key p) p) ps m)) \<and>
         (\<forall>kv \<in> set (fold (\<lambda>p m. Map_set m (key p) p) ps m). fst kv = key (snd kv)) \<and>
         map_of (fold (\<lambda>p m. Map_set m (key p) p) ps m) k =
           (case find (\<lambda>p. key p = k) (rev ps) of None \<Rightarrow> map_of m k | Some p \<Rightarrow> Some p)"
  using assms
proof (induction ps arbitrary: m)
  case Nil
  then show ?case by simp
next
  case (Cons p ps)
  have d: "distinct (map fst (Map_set m (key p) p))"
    using Cons.prems(1) by (rule Map_set_distinct)
  have i: "\<forall>kv \<in> set (Map_set m (key p) p). fst kv = key (snd kv)"
    using Cons.prems(2) by (rule Map_set_keyed)
  show ?case
    using Cons.IH [OF d i]
    by (simp add: Map_set_lookup find_app split: option.splits)
qed

lemma find_snd_keyed:
  assumes "\<forall>kv \<in> set m. fst kv = f (snd kv)"
  shows "find (\<lambda>p. f p = k) (map snd m) = map_of m k"
  using assms by (induction m) auto

lemma mergeAspects_fold:
  "mergeAspects existing ascOnes =
     map snd (fold (\<lambda>p m. Map_set m (key p) p) (existing @ ascOnes) [])"
  by (simp add: mergeAspects_def)

lemma bar_split:
  assumes "CHR ''|'' \<notin> set x" "CHR ''|'' \<notin> set x'" "x @ ''|'' @ y = x' @ ''|'' @ y'"
  shows "x = x' \<and> y = y'"
  using assms
proof (induction x arbitrary: x')
  case Nil
  then show ?case by (cases x') auto
next
  case (Cons c x)
  then show ?case by (cases x') auto
qed

lemma key_injective:
  assumes "CHR ''|'' \<notin> set (ap_a p) \<union> set (ap_type p)"
    and "CHR ''|'' \<notin> set (ap_a q) \<union> set (ap_type q)"
  shows "key p = key q \<longleftrightarrow> ap_a p = ap_a q \<and> ap_type p = ap_type q \<and> ap_b p = ap_b q"
proof
  assume "key p = key q"
  then have e: "ap_a p @ ''|'' @ (ap_type p @ ''|'' @ ap_b p)
                = ap_a q @ ''|'' @ (ap_type q @ ''|'' @ ap_b q)"
    by (simp add: key_def)
  have a: "ap_a p = ap_a q" and r: "ap_type p @ ''|'' @ ap_b p = ap_type q @ ''|'' @ ap_b q"
    using bar_split [OF _ _ e] assms by simp_all
  have "ap_type p = ap_type q \<and> ap_b p = ap_b q"
    using bar_split [OF _ _ r] assms by simp
  then show "ap_a p = ap_a q \<and> ap_type p = ap_type q \<and> ap_b p = ap_b q"
    using a by simp
next
  assume "ap_a p = ap_a q \<and> ap_type p = ap_type q \<and> ap_b p = ap_b q"
  then show "key p = key q" by (simp add: key_def)
qed

lemma fold_Map_set_dom:
  "fst ` set (fold (\<lambda>p m. Map_set m (key p) p) ps m) = fst ` set m \<union> key ` set ps"
  by (induction ps arbitrary: m) (auto simp: Map_set_dom)

lemma mirror_key:
  assumes "CHR ''|'' \<notin> set (ap_a p) \<union> set (ap_type p) \<union> set (ap_b p)" "ap_a p \<noteq> ap_b p"
  shows "key p \<noteq> key (p\<lparr> ap_a := ap_b p, ap_b := ap_a p \<rparr>)"
proof -
  let ?q = "p\<lparr> ap_a := ap_b p, ap_b := ap_a p \<rparr>"
  have "key p = key ?q \<longleftrightarrow> ap_a p = ap_a ?q \<and> ap_type p = ap_type ?q \<and> ap_b p = ap_b ?q"
    using assms(1) by (intro key_injective) simp_all
  then show ?thesis using assms(2) by simp
qed

text \<open>
  Without the condition on \<^verbatim>\<open>|\<close> the join is not injective: these two mirror images share
  the key \<^verbatim>\<open>X|T|X|T|X\<close>, and only the later one is kept.
\<close>

lemma mergeAspects_bar_collision:
  "mergeAspects
     [\<lparr> ap_a = ''X|T|X'', ap_b = ''X'', ap_type = ''T'', ap_delta = 1 \<rparr>]
     [\<lparr> ap_a = ''X'', ap_b = ''X|T|X'', ap_type = ''T'', ap_delta = 2 \<rparr>]
   = [\<lparr> ap_a = ''X'', ap_b = ''X|T|X'', ap_type = ''T'', ap_delta = 2 \<rparr>]"
  by (simp add: mergeAspects_def key_def)

text \<open>
  Claim C1, as stated, at the call site \<^verbatim>\<open>mergeAspects(out.aspects, deriveAscAspects(out))\<close>:
  the supplied list holds the opposition of Sun and Ascendant, the detector emits its mirror
  image (Ascendant first). The keys \<^verbatim>\<open>Sun|Opposition|Ascendant\<close> and
  \<^verbatim>\<open>Ascendant|Opposition|Sun\<close> differ, and the merge keeps both records.
\<close>

theorem mergeAspects_unordered_counterexample:
  "mergeAspects
     (aspects \<lparr> jd_ut = Fin 2451545, timezone = ''UTC'', ascendant = Fin 100,
        positions = [(''Sun'', Fin 280)],
        aspects = [\<lparr> ap_a = ''Sun'', ap_b = ''Ascendant'', ap_type = ''Opposition'',
                      ap_delta = 0 \<rparr>] \<rparr>)
     (deriveAscAspects \<lparr> jd_ut = Fin 2451545, timezone = ''UTC'', ascendant = Fin 100,
        positions = [(''Sun'', Fin 280)],
        aspects = [\<lparr> ap_a = ''Sun'', ap_b = ''Ascendant'', ap_type = ''Opposition'',
                      ap_delta = 0 \<rparr>] \<rparr>)
   = [\<lparr> ap_a = ''Sun'', ap_b = ''Ascendant'', ap_type = ''Opposition'', ap_delta = 0 \<rparr>,
      \<lparr> ap_a = ''Ascendant'', ap_b = ''Sun'', ap_type = ''Opposition'', ap_delta = 0 \<rparr>]"
proof -
  have "deriveAscAspects \<lparr> jd_ut = Fin 2451545, timezone = ''UTC'', ascendant = Fin 100,
        positions = [(''Sun'', Fin 280)],
        aspects = [\<lparr> ap_a = ''Sun'', ap_b = ''Ascendant'', ap_type = ''Opposition'',
                      ap_delta = 0 \<rparr>] \<rparr>
      = [\<lparr> ap_a = ''Ascendant'', ap_b = ''Sun'', ap_type = ''Opposition'', ap_delta = 0 \<rparr>]"
    by (simp add: deriveAscAspects_def deriveAscAspectsWith_def ascAspect_def angDiff_def
        norm360_id ASPECTS_DEF_def inOrb_def toFixed2_def)
  then show ?thesis
    by (simp add: mergeAspects_def key_def)
qed

text \<open>
  Claim C1, amended. The merge deduplicates by the ordered key string \<^verbatim>\<open>a|type|b\<close>, the
  three fields joined with \<^verbatim>\<open>|\<close>: the keys of the result are pairwise distinct and are
  exactly the keys of the two lists, and for every key the result holds the last record
  with that key in the existing list followed by the ascendant list (a later insertion
  overwrites an earlier one). For two records whose first body and type hold no \<^verbatim>\<open>|\<close>,
  the keys are equal exactly when first body, type and second body are equal in this order;
  so a record whose fields hold no \<^verbatim>\<open>|\<close> and whose bodies differ has another key than
  its mirror image (bodies swapped), and the two do not collide.
\<close>

theorem mergeAspects_ordered_key:
  "distinct (map key (mergeAspects existing ascOnes)) \<and>
   set (map key (mergeAspects existing ascOnes)) = set (map key (existing @ ascOnes)) \<and>
   find (\<lambda>p. key p = k) (mergeAspects existing ascOnes)
     = find (\<lambda>p. key p = k) (rev (existing @ ascOnes)) \<and>
   (CHR ''|'' \<notin> set (ap_a p) \<union> set (ap_type p) \<and> CHR ''|'' \<notin> set (ap_a q) \<union> set (ap_type q)
      \<longrightarrow> (key p = key q \<longleftrightarrow> ap_a p = ap_a q \<and> ap_type p = ap_type q \<and> ap_b p = ap_b q)) \<and>
   (CHR ''|'' \<notin> set (ap_a p) \<union> set (ap_type p) \<union> set (ap_b p) \<and> ap_a p \<noteq> ap_b p
      \<longrightarrow> key p \<noteq> key (p\<lparr> ap_a := ap_b p, ap_b := ap_a p \<rparr>))"
proof -
  let ?m = "fold (\<lambda>p m. Map_set m (key p) p) (existing @ ascOnes) []"
  have f: "distinct (map fst ?m)" "\<forall>kv \<in> set ?m. fst kv = key (snd kv)"
    "map_of ?m k = (case find (\<lambda>p. key p = k) (rev (existing @ ascOnes)) of
                      None \<Rightarrow> map_of [] k | Some p \<Rightarrow> Some p)"
    using fold_Map_set [of "[]" "existing @ ascOnes" k] by simp_all
  have keys: "map key (mergeAspects existing ascOnes) = map fst ?m"
    unfolding mergeAspects_fold using f(2) by (rule keyed_map)
  then have d: "distinct (map key (mergeAspects existing ascOnes))"
    using f(1) by (simp only:)
  have "set (map fst ?m) = set (map key (existing @ ascOnes))"
    using fold_Map_set_dom [of "existing @ ascOnes" "[]"] by (simp add: image_Un)
  then have s: "set (map key (mergeAspects existing ascOnes)) = set (map key (existing @ ascOnes))"
    unfolding keys .
  have "find (\<lambda>p. key p = k) (map snd ?m) = map_of ?m k"
    using f(2) by (rule find_snd_keyed)
  then have l: "find (\<lambda>p. key p = k) (mergeAspects existing ascOnes)
                  = find (\<lambda>p. key p = k) (rev (existing @ ascOnes))"
    unfolding mergeAspects_fold f(3) by (simp split: option.splits)
  show ?thesis
    using d s l key_injective [of p q] mirror_key [of p] by blast
qed

text \<open>Two records with one key: the later one is kept; the mirror image has another key.\<close>

theorem mergeAspects_ordered_key_witness:
  "find (\<lambda>p. key p = ''Sun|Trine|Moon'')
     (mergeAspects
        [\<lparr> ap_a = ''Sun'', ap_b = ''Moon'', ap_type = ''Trine'', ap_delta = 1 \<rparr>]
        [\<lparr> ap_a = ''Sun'', ap_b = ''Moon'', ap_type = ''Trine'', ap_delta = 2 \<rparr>])
     = Some \<lparr> ap_a = ''Sun'', ap_b = ''Moon'', ap_type = ''Trine'', ap_delta = 2 \<rparr> \<and>
   key \<lparr> ap_a = ''Sun'', ap_b = ''Moon'', ap_type = ''Trine'', ap_delta = 1 \<rparr>
     \<noteq> key \<lparr> ap_a = ''Moon'', ap_b = ''Sun'', ap_type = ''Trine'', ap_delta = 1 \<rparr>"
  using mergeAspects_ordered_key
    [of "[\<lparr> ap_a = ''Sun'', ap_b = ''Moon'', ap_type = ''Trine'', ap_delta = 1 \<rparr>]"
        "[\<lparr> ap_a = ''Sun'', ap_b = ''Moon'', ap_type = ''Trine'', ap_delta = 2 \<rparr>]"
        "''Sun|Trine|Moon''"
        "\<lparr> ap_a = ''Sun'', ap_b = ''Moon'', ap_type = ''Trine'', ap_delta = 1 \<rparr>"
        "\<lparr> ap_a = ''Moon'', ap_b = ''Sun'', ap_type = ''Trine'', ap_delta = 1 \<rparr>"]
  by (simp add: key_def)

end
